theory Spec2Isabelle
  imports Main "HOL-Library.Multiset"
begin

section \<open>The task store (database.py)\<close>

text \<open>
  The table \<^verbatim>\<open>background_tasks\<close> is a list of rows. The columns keep the types of the
  schema: \<^verbatim>\<open>status\<close> is a VARCHAR (any string can be stored), \<^verbatim>\<open>attempts\<close> an INT,
  \<^verbatim>\<open>last_error\<close> a nullable TEXT, the two timestamps are seconds. The JSON column
  \<^verbatim>\<open>payload\<close> is NULL, a text that \<^verbatim>\<open>json.loads\<close> rejects, or an object; the values of
  an object are JSON scalars.
\<close>

datatype jval = JNull | JBool bool | JInt int | JStr string

type_synonym pydict = "(string \<times> jval) list"

datatype json_column = SqlNull | BadJson | JsonObject pydict

record task_row =
  task_id :: string
  task_type :: string
  payload :: json_column
  status :: string
  created_at :: nat
  updated_at :: nat
  attempts :: int
  last_error :: "string option"

type_synonym table = "task_row list"

text \<open>
  One database call as the environment decides it: \<open>db_ok\<close> says that
  \<^verbatim>\<open>get_db_connection\<close> returned a connection and the statement ran without a MySQL
  error (otherwise the functions below return their failure value and write nothing);
  \<open>now\<close> is \<^verbatim>\<open>datetime.now()\<close>; \<open>found_rows\<close> is the connection's CLIENT_FOUND_ROWS
  flag, which decides whether \<^verbatim>\<open>cursor.rowcount\<close> counts the rows the WHERE clause
  matched or only those whose values changed.
\<close>

record db_call =
  db_ok :: bool
  now :: nat
  found_rows :: bool

text \<open>The SET clause of \<^verbatim>\<open>update_task_status\<close>; \<^verbatim>\<open>IFNULL(%s, attempts)\<close> keeps the column
  when no attempt count is passed.\<close>

definition set_clause :: "nat \<Rightarrow> string \<Rightarrow> int option \<Rightarrow> string option \<Rightarrow> task_row \<Rightarrow> task_row" where
  "set_clause t st att err r =
     r\<lparr>status := st, updated_at := t,
       attempts := (case att of None \<Rightarrow> attempts r | Some a \<Rightarrow> a),
       last_error := err\<rparr>"

definition rowcount :: "db_call \<Rightarrow> string \<Rightarrow> string \<Rightarrow> int option \<Rightarrow> string option \<Rightarrow> table \<Rightarrow> nat" where
  "rowcount c tid st att err rows =
     length (filter (\<lambda>r. task_id r = tid \<and> (found_rows c \<or> set_clause (now c) st att err r \<noteq> r)) rows)"

definition update_task_status ::
  "db_call \<Rightarrow> string \<Rightarrow> string \<Rightarrow> int option \<Rightarrow> string option \<Rightarrow> table \<Rightarrow> table \<times> bool" where
  "update_task_status c tid st att err rows =
     (if \<not> db_ok c then (rows, False)
      else (map (\<lambda>r. if task_id r = tid then set_clause (now c) st att err r else r) rows,
            0 < rowcount c tid st att err rows))"

definition mark_task_processing :: "db_call \<Rightarrow> string \<Rightarrow> int \<Rightarrow> table \<Rightarrow> table \<times> bool" where
  "mark_task_processing c tid att rows =
     update_task_status c tid ''processing'' (Some (att + 1)) None rows"

text \<open>The WHERE clause of \<^verbatim>\<open>get_pending_tasks\<close>.\<close>

definition where_clause :: "int \<Rightarrow> task_row \<Rightarrow> bool" where
  "where_clause max_retries r =
     ((status r = ''pending'' \<or> (status r = ''error'' \<and> attempts r < max_retries))
      \<and> status r \<noteq> ''skip'')"

text \<open>The SELECT statement: WHERE, ORDER BY created_at ASC, LIMIT. Rows with equal
  \<^verbatim>\<open>created_at\<close> keep their table order.\<close>

definition select_pending :: "int \<Rightarrow> nat \<Rightarrow> table \<Rightarrow> task_row list" where
  "select_pending max_retries limit rows =
     take limit (sort_key created_at (filter (where_clause max_retries) rows))"

text \<open>The dictionaries \<^verbatim>\<open>get_pending_tasks\<close> returns: the four selected columns, the
  payload deserialised. A NULL payload stays \<^verbatim>\<open>None\<close>, one that does not parse becomes
  the empty dictionary.\<close>

record task =
  t_task_id :: string
  t_task_type :: string
  t_payload :: "pydict option"
  t_attempts :: int

definition deserialize :: "json_column \<Rightarrow> pydict option" where
  "deserialize p = (case p of SqlNull \<Rightarrow> None | BadJson \<Rightarrow> Some [] | JsonObject d \<Rightarrow> Some d)"

definition fetch_dict :: "task_row \<Rightarrow> task" where
  "fetch_dict r =
     \<lparr>t_task_id = task_id r, t_task_type = task_type r,
      t_payload = deserialize (payload r), t_attempts = attempts r\<rparr>"

text \<open>\<^verbatim>\<open>WORKER_CONFIG['max_task_retries']\<close> of config.py.\<close>

definition max_task_retries :: int where
  "max_task_retries = 3"

definition get_pending_tasks :: "db_call \<Rightarrow> int \<Rightarrow> nat \<Rightarrow> table \<Rightarrow> task list" where
  "get_pending_tasks c max_retries limit rows =
     (if \<not> db_ok c then [] else map fetch_dict (select_pending max_retries limit rows))"

section \<open>Python values and strings\<close>

text \<open>Truth value testing of a JSON scalar and of an optional string, as \<^verbatim>\<open>if x:\<close> does it.\<close>

fun truthy :: "jval \<Rightarrow> bool" where
  "truthy JNull = False"
| "truthy (JBool b) = b"
| "truthy (JInt i) = (i \<noteq> 0)"
| "truthy (JStr s) = (s \<noteq> [])"

fun nonempty :: "string option \<Rightarrow> bool" where
  "nonempty None = False"
| "nonempty (Some s) = (s \<noteq> [])"

text \<open>\<^verbatim>\<open>d.get(k, default)\<close>.\<close>

definition dict_get :: "pydict \<Rightarrow> string \<Rightarrow> jval \<Rightarrow> jval" where
  "dict_get d k dflt = (case map_of d k of None \<Rightarrow> dflt | Some v \<Rightarrow> v)"

text \<open>\<^verbatim>\<open>sep.join(xs)\<close>.\<close>

fun join :: "string \<Rightarrow> string list \<Rightarrow> string" where
  "join sep [] = []"
| "join sep [x] = x"
| "join sep (x # y # ys) = x @ sep @ join sep (y # ys)"

text \<open>An optional string inside an f-string: \<^verbatim>\<open>None\<close> is printed as the word None.\<close>

fun fmt :: "string option \<Rightarrow> string" where
  "fmt None = ''None''"
| "fmt (Some s) = s"

text \<open>Decimal notation, \<^verbatim>\<open>str(n)\<close> for integers.\<close>

fun str_nat :: "nat \<Rightarrow> string" where
  "str_nat n = (if n < 10 then [char_of (48 + n)] else str_nat (n div 10) @ [char_of (48 + n mod 10)])"

definition str_int :: "int \<Rightarrow> string" where
  "str_int i = (if i < 0 then CHR ''-'' # str_nat (nat (- i)) else str_nat (nat i))"

text \<open>
  Text is a list of code points below 256. \<open>isspace\<close> is \<^verbatim>\<open>str.isspace\<close> on that range,
  \<open>split\<close> is \<^verbatim>\<open>str.split()\<close> without arguments (runs of white space separate words, no
  empty word is produced), \<open>strip\<close> is \<^verbatim>\<open>str.strip()\<close>, \<open>lower\<close> is \<^verbatim>\<open>str.lower()\<close>, and
  \<open>is_in p s\<close> is \<^verbatim>\<open>p in s\<close>.
\<close>

definition isspace :: "char \<Rightarrow> bool" where
  "isspace c = (c \<in> set [CHR 0x09, CHR 0x0A, CHR 0x0B, CHR 0x0C, CHR 0x0D, CHR 0x1C, CHR 0x1D,
                         CHR 0x1E, CHR 0x1F, CHR 0x20, CHR 0x85, CHR 0xA0])"

fun split_from :: "string \<Rightarrow> string \<Rightarrow> string list" where
  "split_from cur [] = (if cur = [] then [] else [cur])"
| "split_from cur (c # cs) =
     (if isspace c then (if cur = [] then split_from [] cs else cur # split_from [] cs)
      else split_from (cur @ [c]) cs)"

definition split :: "string \<Rightarrow> string list" where
  "split s = split_from [] s"

definition strip :: "string \<Rightarrow> string" where
  "strip s = rev (dropWhile isspace (rev (dropWhile isspace s)))"

definition lower_char :: "char \<Rightarrow> char" where
  "lower_char c =
     (let n = (of_char c :: nat)
      in if (65 \<le> n \<and> n \<le> 90) \<or> (192 \<le> n \<and> n \<le> 222 \<and> n \<noteq> 215) then char_of (n + 32) else c)"

definition lower :: "string \<Rightarrow> string" where
  "lower s = map lower_char s"

fun is_in :: "string \<Rightarrow> string \<Rightarrow> bool" where
  "is_in p [] = (p = [])"
| "is_in p (c # cs) = (take (length p) (c # cs) = p \<or> is_in p cs)"

section \<open>Text generation (services/workflow.py, generate\_content)\<close>

text \<open>
  What one call of \<^verbatim>\<open>anthropic_client.messages.create\<close> does: it delivers a text, or it
  raises one of the exceptions the loop distinguishes (the API status error carries its
  status code and response as printed).
\<close>

datatype api_outcome =
    ApiText string
  | APIConnectionError string
  | RateLimitError string
  | APIStatusError string string
  | ApiValueError string
  | ApiException string

text \<open>
  The service object and its collaborators: whether the Anthropic client exists,
  \<^verbatim>\<open>self.max_retries\<close>, the prompt \<^verbatim>\<open>_generate_claude_prompt\<close> builds (empty when it
  fails), the outcome of the n-th API call of this invocation (counted from 0), and the
  rewriting \<^verbatim>\<open>_process_claude_link_suggestions\<close> applies to a non-empty text.
\<close>

record brief =
  keyword :: "string option"
  target_word_count :: "int option"

record llm =
  client_available :: bool
  max_retries :: int
  claude_prompt :: "brief \<Rightarrow> string"
  api :: "nat \<Rightarrow> api_outcome"
  link_suggestions :: "string \<Rightarrow> string"

definition process_claude_link_suggestions :: "llm \<Rightarrow> string \<Rightarrow> string" where
  "process_claude_link_suggestions g content = (if content = [] then [] else link_suggestions g content)"

text \<open>
  The body of the \<^verbatim>\<open>try\<close> of one loop iteration, with its \<^verbatim>\<open>except\<close> clauses. It returns
  the new value of \<^verbatim>\<open>final_content_for_processing\<close> and either the accepted, processed
  text or the new \<^verbatim>\<open>last_error\<close>. The source tests
  \<^verbatim>\<open>actual_w_count >= target_w_count * 0.9\<close> in double precision; for word counts and
  targets below \<open>2 ^ 49\<close> the rounded product decides the test as the integers do, which
  is how it is written here.
\<close>

datatype attempt_result = Accepted string | Failed string

definition attempt :: "llm \<Rightarrow> int \<Rightarrow> nat \<Rightarrow> string option \<Rightarrow> string option \<times> attempt_result" where
  "attempt g target n final_content =
     (case api g n of
        ApiText raw \<Rightarrow>
          (let content_raw = strip raw; actual_w_count = length (split content_raw)
           in if actual_w_count < 100 \<or> is_in ''sorry'' (take 100 (lower content_raw))
                 \<or> is_in ''cannot fulfill'' (take 150 (lower content_raw))
              then (Some content_raw, Failed ''Generated content potentially invalid or refused.'')
              else if 9 * target \<le> 10 * int actual_w_count
              then (Some content_raw, Accepted (process_claude_link_suggestions g content_raw))
              else (Some content_raw,
                    Failed (''Word count '' @ str_nat actual_w_count @ '' is less than 90% of target ''
                            @ str_int target)))
      | APIConnectionError m \<Rightarrow> (final_content, Failed (''Anthropic API conn error: '' @ m))
      | RateLimitError m \<Rightarrow> (final_content, Failed (''Anthropic rate limit exceeded: '' @ m))
      | APIStatusError code resp \<Rightarrow>
          (final_content, Failed (''Anthropic API status error ('' @ code @ ''): '' @ resp))
      | ApiValueError m \<Rightarrow> (final_content, Failed m)
      | ApiException m \<Rightarrow> (final_content, Failed (''Unexpected error during Claude generation: '' @ m)))"

text \<open>
  The \<^verbatim>\<open>while retries <= self.max_retries\<close> loop. The state is \<^verbatim>\<open>retries\<close> and
  \<^verbatim>\<open>final_content_for_processing\<close>; \<^verbatim>\<open>last_error\<close> is set by every iteration that does
  not return, so the iteration's own error is the one returned. The third component of
  the result counts the API calls made.
\<close>

function generate_loop :: "llm \<Rightarrow> int \<Rightarrow> nat \<Rightarrow> string option \<Rightarrow> string option \<times> string option \<times> nat" where
  "generate_loop g target retries final_content =
     (if int retries \<le> max_retries g then
        (case attempt g target retries final_content of
           (fc, Accepted processed) \<Rightarrow> (Some processed, None, retries + 1)
         | (fc, Failed err) \<Rightarrow>
             (if int (retries + 1) \<le> max_retries g then generate_loop g target (retries + 1) fc
              else (case fc of
                      None \<Rightarrow> (None, Some err, retries + 1)
                    | Some text \<Rightarrow>
                        (if text = [] then (None, Some err, retries + 1)
                         else (Some (process_claude_link_suggestions g text), Some err, retries + 1)))))
      else (None, Some ''Exceeded max retries'', retries))"
  by pat_completeness auto
termination
  by (relation "measure (\<lambda>(g, target, retries, fc). nat (max_retries g + 1 - int retries))") auto

declare generate_loop.simps [simp del]




section \<open>Processing one task (worker.py, process\_single\_task)\<close>

text \<open>
  A stage either returns or raises an exception with a message. The publishing stage
  returns \<^verbatim>\<open>None\<close> or a dictionary with the two parts \<^verbatim>\<open>blog_post\<close> and
  \<^verbatim>\<open>category_update\<close>; \<open>bp_error = None\<close> says that \<^verbatim>\<open>blog_post\<close> has no key
  \<^verbatim>\<open>error\<close>.
\<close>

datatype 'a outcome = Returns 'a | Raises string

record post_result =
  bp_status :: string
  bp_id :: "int option"
  bp_url :: "string option"
  bp_error :: "string option"
  cu_status :: string
  cu_error :: "string option"

text \<open>The rest of the service initialisation after the WordPress credential check: it
  completes, raises a \<^verbatim>\<open>ValueError\<close> (a missing key, a malformed number), or raises
  another exception.\<close>

datatype init_outcome = InitOk | InitValueError string | InitException string

text \<open>
  The callback POST: \<^verbatim>\<open>requests.post\<close> returns a response with its status code, or
  it raises a \<^verbatim>\<open>RequestException\<close> (connection error, timeout), a \<^verbatim>\<open>ValueError\<close>, or
  another exception. \<^verbatim>\<open>response.raise_for_status()\<close> raises an \<^verbatim>\<open>HTTPError\<close>, which is
  a \<^verbatim>\<open>RequestException\<close>, for the status codes 400 to 599 and for no other; the text
  carried with a response is the message of that error.
\<close>

datatype callback_outcome =
    Response nat string
  | RequestException string
  | CallbackValueError string
  | CallbackException string

definition raises_for_status :: "nat \<Rightarrow> bool" where
  "raises_for_status status_code = (400 \<le> status_code \<and> status_code < 600)"

text \<open>
  Everything outside the function that one execution of \<^verbatim>\<open>process_single_task\<close> meets:
  the four places where it calls the database, the environment variables it reads, the
  outcome of each collaborator, \<^verbatim>\<open>config.WP_CONFIG['callback_url']\<close>, and the text of the
  interpreter's \<^verbatim>\<open>UnboundLocalError\<close> for a local variable read before any assignment.
\<close>

record env =
  db_invalid :: db_call
  db_mark :: db_call
  db_init_error :: db_call
  db_final :: db_call
  wp_api_url :: "string option"
  wp_api_user :: "string option"
  wp_api_app_password :: "string option"
  init_rest :: init_outcome
  r_generate :: "(string option \<times> string option) outcome"
  r_image :: "int option outcome"
  r_post :: "post_result option outcome"
  r_callback :: callback_outcome
  config_callback_url :: jval
  unbound_local :: string

text \<open>What an execution does to the outside world, in order: the calls of
  \<^verbatim>\<open>update_task_status\<close> with their arguments (task id, status, attempts, error message),
  the three stages, and the callback POST with its URL.\<close>

datatype event =
    DbUpdate string string "int option" "string option"
  | GenerateContent
  | GenerateImage
  | PostToWordPress
  | CallbackPost jval

record callback_payload =
  cp_brief_id :: jval
  cp_task_id :: string
  cp_status :: string
  cp_generated_content :: "string option"
  cp_featured_image_id :: "int option"
  cp_generated_post_id :: "int option"
  cp_generated_post_url :: "string option"
  cp_error_message :: "string option"

definition required_payload_keys :: "string list" where
  "required_payload_keys = [''brief_id'', ''prompt'', ''target_word_count'', ''keyword'', ''callback_url'']"

definition missing_keys :: "pydict \<Rightarrow> string list" where
  "missing_keys p = filter (\<lambda>key. map_of p key = None) required_payload_keys"

text \<open>The payload validation: the error message to store, or the validated payload.\<close>

definition validate_payload :: "string \<Rightarrow> pydict option \<Rightarrow> string + pydict" where
  "validate_payload tid po =
     (case po of
        None \<Rightarrow> Inl ''Invalid or empty payload received.''
      | Some p \<Rightarrow>
          (if p = [] then Inl ''Invalid or empty payload received.''
           else if missing_keys p \<noteq> []
           then Inl (''Task '' @ tid @ '' payload missing required keys: '' @ join '', '' (missing_keys p))
           else Inr p))"

text \<open>The service initialisation: the error message to store, or success.\<close>

definition init_services :: "env \<Rightarrow> string \<Rightarrow> string + unit" where
  "init_services e tid =
     (if \<not> (nonempty (wp_api_url e) \<and> nonempty (wp_api_user e) \<and> nonempty (wp_api_app_password e))
      then Inl ''WP Credentials check failed inside task processing.''
      else (case init_rest e of
              InitOk \<Rightarrow> Inr ()
            | InitValueError m \<Rightarrow> Inl m
            | InitException m \<Rightarrow>
                Inl (''Unexpected error initializing services for task '' @ tid @ '': '' @ m)))"

definition initial_callback_payload :: "string \<Rightarrow> pydict \<Rightarrow> callback_payload" where
  "initial_callback_payload tid p =
     \<lparr>cp_brief_id = dict_get p ''brief_id'' JNull, cp_task_id = tid, cp_status = ''error'',
      cp_generated_content = None, cp_featured_image_id = None, cp_generated_post_id = None,
      cp_generated_post_url = None,
      cp_error_message = Some ''Task execution did not complete successfully.''\<rparr>"

text \<open>The handler \<^verbatim>\<open>except Exception as processing_err\<close> of the main block.\<close>

definition on_exception :: "string \<Rightarrow> string \<Rightarrow> callback_payload \<Rightarrow> callback_payload \<times> string" where
  "on_exception tid msg cp =
     (cp\<lparr>cp_error_message := Some (''Unexpected error processing task '' @ tid @ '': '' @ msg),
         cp_status := ''error''\<rparr>, ''error'')"

text \<open>
  The \<^verbatim>\<open>if\<close>/\<^verbatim>\<open>elif\<close>/\<^verbatim>\<open>else\<close> over \<^verbatim>\<open>post_result\<close>. The local variable is assigned only
  inside \<^verbatim>\<open>if generated_content:\<close>; the argument is \<open>None\<close> when it was never assigned,
  and reading it then raises \<^verbatim>\<open>UnboundLocalError\<close>, which the handler above catches.
\<close>

definition generation_failed :: "string option \<Rightarrow> callback_payload \<Rightarrow> callback_payload \<times> string" where
  "generation_failed gen_error cp =
     (cp\<lparr>cp_error_message := Some (''Content generation failed: '' @ fmt gen_error)\<rparr>, ''error'')"

definition check_post_result ::
  "env \<Rightarrow> string \<Rightarrow> post_result option option \<Rightarrow> string option \<Rightarrow> callback_payload
     \<Rightarrow> callback_payload \<times> string" where
  "check_post_result e tid assigned gen_error cp =
     (case assigned of
        None \<Rightarrow> on_exception tid (unbound_local e) cp
      | Some None \<Rightarrow> generation_failed gen_error cp
      | Some (Some r) \<Rightarrow>
          (if bp_status r = ''success'' then
             (cp\<lparr>cp_generated_post_id := bp_id r, cp_generated_post_url := bp_url r,
                 cp_status := ''success'',
                 cp_error_message :=
                   (if cu_status r = ''error''
                    then Some (''Blog post created, but category update failed: '' @ fmt (cu_error r))
                    else None)\<rparr>,
              ''completed'')
           else if bp_status r = ''error'' then
             (cp\<lparr>cp_error_message :=
                   Some (''Content generated, but WP post creation failed: ''
                         @ (case bp_error r of None \<Rightarrow> ''Unknown WP error'' | Some d \<Rightarrow> d))\<rparr>,
              ''error'')
           else generation_failed gen_error cp))"

text \<open>The main \<^verbatim>\<open>try\<close> block with its handler: the callback payload, the value of
  \<^verbatim>\<open>final_task_status\<close>, and the stages that were called.\<close>

definition execute_task ::
  "env \<Rightarrow> task \<Rightarrow> callback_payload \<Rightarrow> (callback_payload \<times> string) \<times> event list" where
  "execute_task e t cp =
     (if t_task_type t = ''generate_content'' then
        (case r_generate e of
           Raises m \<Rightarrow> (on_exception (t_task_id t) m cp, [GenerateContent])
         | Returns (generated_content, gen_error) \<Rightarrow>
             (if nonempty generated_content then
                (let cp1 = cp\<lparr>cp_generated_content := generated_content\<rparr>
                 in case r_image e of
                      Raises m \<Rightarrow> (on_exception (t_task_id t) m cp1, [GenerateContent, GenerateImage])
                    | Returns featured_image_id \<Rightarrow>
                        (let cp2 = cp1\<lparr>cp_featured_image_id := featured_image_id\<rparr>
                         in case r_post e of
                              Raises m \<Rightarrow>
                                (on_exception (t_task_id t) m cp2,
                                 [GenerateContent, GenerateImage, PostToWordPress])
                            | Returns pr \<Rightarrow>
                                (check_post_result e (t_task_id t) (Some pr) gen_error cp2,
                                 [GenerateContent, GenerateImage, PostToWordPress])))
              else (check_post_result e (t_task_id t) None gen_error cp, [GenerateContent])))
      else ((cp\<lparr>cp_error_message := Some (''Unknown task type received: '' @ t_task_type t)\<rparr>,
             ''error''), []))"

text \<open>The handler \<^verbatim>\<open>except requests.exceptions.RequestException as req_err\<close>.\<close>

definition on_request_exception :: "string \<Rightarrow> callback_payload \<Rightarrow> callback_payload \<times> string" where
  "on_request_exception req_err cp =
     (cp\<lparr>cp_error_message :=
           Some (''Processing status was '' @ [CHR 0x27] @ cp_status cp @ [CHR 0x27]
                 @ '', but callback failed: '' @ req_err)\<rparr>, ''error'')"

text \<open>The callback part of the \<^verbatim>\<open>finally\<close> block: the callback payload and
  \<^verbatim>\<open>final_task_status\<close> after it, and whether a POST was sent.\<close>

definition send_callback ::
  "env \<Rightarrow> string \<Rightarrow> pydict \<Rightarrow> callback_payload \<times> string \<Rightarrow> (callback_payload \<times> string) \<times> event list" where
  "send_callback e tid p st =
     (case st of (cp, final_task_status) \<Rightarrow>
      (let callback_url = dict_get p ''callback_url'' (config_callback_url e)
       in if truthy callback_url then
            (if \<not> (nonempty (wp_api_user e) \<and> nonempty (wp_api_app_password e)) then
               ((cp\<lparr>cp_error_message :=
                      Some (''Callback failed for task '' @ tid
                            @ '': Missing WP API credentials for callback.'')\<rparr>, ''error''), [])
             else
               (case r_callback e of
                  Response status_code http_error \<Rightarrow>
                    (if raises_for_status status_code
                     then (on_request_exception http_error cp, [CallbackPost callback_url])
                     else ((cp, final_task_status), [CallbackPost callback_url]))
                | RequestException m \<Rightarrow> (on_request_exception m cp, [CallbackPost callback_url])
                | CallbackValueError m \<Rightarrow>
                    ((cp\<lparr>cp_error_message := Some (''Callback failed for task '' @ tid @ '': '' @ m)\<rparr>,
                      ''error''), [CallbackPost callback_url])
                | CallbackException m \<Rightarrow>
                    ((cp\<lparr>cp_error_message := Some (''Callback error: '' @ m)\<rparr>, ''error''),
                     [CallbackPost callback_url])))
          else ((cp\<lparr>cp_error_message := Some ''Missing callback URL in task payload''\<rparr>,
                 final_task_status), [])))"

text \<open>The whole function: the table after the execution and the trace of what it did.\<close>

definition process_single_task :: "env \<Rightarrow> task \<Rightarrow> table \<Rightarrow> table \<times> event list" where
  "process_single_task e t rows =
     (case validate_payload (t_task_id t) (t_payload t) of
        Inl msg \<Rightarrow>
          (fst (update_task_status (db_invalid e) (t_task_id t) ''error'' None (Some msg) rows),
           [DbUpdate (t_task_id t) ''error'' None (Some msg)])
      | Inr p \<Rightarrow>
          (case mark_task_processing (db_mark e) (t_task_id t) (t_attempts t) rows of
             (rows1, marked) \<Rightarrow>
               (if \<not> marked
                then (rows1, [DbUpdate (t_task_id t) ''processing'' (Some (t_attempts t + 1)) None])
                else
                  (case init_services e (t_task_id t) of
                     Inl msg \<Rightarrow>
                       (fst (update_task_status (db_init_error e) (t_task_id t) ''error'' None (Some msg) rows1),
                        [DbUpdate (t_task_id t) ''processing'' (Some (t_attempts t + 1)) None,
                         DbUpdate (t_task_id t) ''error'' None (Some msg)])
                   | Inr u \<Rightarrow>
                       (case execute_task e t (initial_callback_payload (t_task_id t) p) of
                          (st, stages) \<Rightarrow>
                            (case send_callback e (t_task_id t) p st of
                               ((cp, final_task_status), posts) \<Rightarrow>
                                 (fst (update_task_status (db_final e) (t_task_id t) final_task_status
                                         None (cp_error_message cp) rows1),
                                  [DbUpdate (t_task_id t) ''processing'' (Some (t_attempts t + 1)) None]
                                  @ stages @ posts
                                  @ [DbUpdate (t_task_id t) final_task_status None
                                       (cp_error_message cp)])))))))"

section \<open>The latest text, for stating what an exhausted generation returns\<close>


section \<open>Concrete inputs\<close>

definition example_call :: "nat \<Rightarrow> db_call" where
  "example_call t = \<lparr>db_ok = True, now = t, found_rows = False\<rparr>"

definition example_payload :: "jval \<Rightarrow> pydict" where
  "example_payload url =
     [(''brief_id'', JInt 7), (''prompt'', JStr ''Write about pool tables''),
      (''target_word_count'', JInt 1500), (''keyword'', JStr ''pool table''),
      (''callback_url'', url)]"

definition example_url :: jval where
  "example_url = JStr ''https://example.org/callback''"

definition example_row :: "string \<Rightarrow> string \<Rightarrow> nat \<Rightarrow> int \<Rightarrow> task_row" where
  "example_row tid st created att =
     \<lparr>task_id = tid, task_type = ''generate_content'', payload = JsonObject (example_payload example_url),
      status = st, created_at = created, updated_at = created, attempts = att, last_error = None\<rparr>"

definition example_table :: table where
  "example_table =
     [example_row ''t1'' ''completed'' 1 1, example_row ''t2'' ''error'' 5 3,
      example_row ''t3'' ''pending'' 30 0, example_row ''t4'' ''error'' 10 1,
      example_row ''t5'' ''skip'' 2 0, example_row ''t6'' ''processing'' 3 1,
      example_row ''t7'' ''pending'' 40 0]"

text \<open>A pending task whose stored payload does not parse.\<close>

definition example_bad_row :: task_row where
  "example_bad_row = (example_row ''t3'' ''pending'' 30 0)\<lparr>payload := BadJson\<rparr>"

text \<open>A table that holds it behind a completed task and an error task out of retries,
  together with two tasks the claim query matches: t4, created at the given time, and
  t7, created after it.\<close>

definition example_queue :: "nat \<Rightarrow> table" where
  "example_queue created =
     [example_row ''t1'' ''completed'' 1 1, example_row ''t2'' ''error'' 5 3,
      example_row ''t4'' ''error'' created 1, example_bad_row, example_row ''t7'' ''pending'' 40 0]"

definition example_task :: "jval \<Rightarrow> task" where
  "example_task url =
     \<lparr>t_task_id = ''t3'', t_task_type = ''generate_content'',
      t_payload = Some (example_payload url), t_attempts = 0\<rparr>"

definition example_post :: "string \<Rightarrow> post_result" where
  "example_post category =
     \<lparr>bp_status = ''success'', bp_id = Some 321, bp_url = Some ''https://example.org/?p=321'',
      bp_error = None, cu_status = category,
      cu_error = (if category = ''error'' then Some ''Missing category ID'' else None)\<rparr>"

definition example_env :: env where
  "example_env =
     \<lparr>db_invalid = example_call 100, db_mark = example_call 100,
      db_init_error = example_call 101, db_final = example_call 160,
      wp_api_url = Some ''https://example.org/wp-json'', wp_api_user = Some ''bot'',
      wp_api_app_password = Some ''secret'', init_rest = InitOk,
      r_generate = Returns (Some ''<h2>Pool tables</h2>'', None),
      r_image = Returns (Some 11),
      r_post = Returns (Some (example_post ''not_applicable'')),
      r_callback = Response 200 [], config_callback_url = JNull,
      unbound_local = ''local variable '' @ [CHR 0x27] @ ''post_result'' @ [CHR 0x27]
                      @ '' referenced before assignment''\<rparr>"




section \<open>The claim query\<close>

lemma take_le_drop_sorted:
  assumes "sorted (map f xs)" "x \<in> set (take n xs)" "y \<in> set (drop n xs)"
  shows "f x \<le> f y"
proof -
  have "sorted (map f (take n xs) @ map f (drop n xs))"
    using assms(1) by (simp flip: map_append)
  then show ?thesis using assms(2,3) by (auto simp: sorted_append)
qed

lemma mset_minus_take: "mset xs - mset (take n xs) = mset (drop n xs)"
proof -
  have "mset xs = mset (take n xs) + mset (drop n xs)"
    by (simp flip: mset_append)
  then show ?thesis by simp
qed

lemma where_clause_iff:
  "where_clause m r \<longleftrightarrow> status r = ''pending'' \<or> (status r = ''error'' \<and> attempts r < m)"
  by (auto simp: where_clause_def)

lemma sel_take:
  "select_pending m limit rows
     = take limit (sort_key created_at
         (filter (\<lambda>r. status r = ''pending'' \<or> (status r = ''error'' \<and> attempts r < m)) rows))"
proof -
  have "where_clause m = (\<lambda>r. status r = ''pending'' \<or> (status r = ''error'' \<and> attempts r < m))"
    by (rule ext) (rule where_clause_iff)
  then show ?thesis by (simp only: select_pending_def)
qed

lemma sel_length:
  "length (select_pending m limit rows)
     = min limit (length (filter (\<lambda>r. status r = ''pending'' \<or> (status r = ''error'' \<and> attempts r < m)) rows))"
  by (simp only: sel_take length_take length_sort min.commute)

lemma sel_mset:
  "mset (select_pending m limit rows)
     \<subseteq># mset (filter (\<lambda>r. status r = ''pending'' \<or> (status r = ''error'' \<and> attempts r < m)) rows)"
proof -
  let ?xs = "sort_key created_at (filter (\<lambda>r. status r = ''pending'' \<or> (status r = ''error'' \<and> attempts r < m)) rows)"
  have "mset ?xs = mset (take limit ?xs) + mset (drop limit ?xs)"
    by (simp only: mset_append[symmetric] append_take_drop_id)
  then have "mset (take limit ?xs) \<subseteq># mset ?xs"
    by (simp only: mset_subset_eq_add_left)
  then show ?thesis by (simp only: sel_take mset_sort)
qed

lemma sel_status:
  assumes "r \<in> set (select_pending m limit rows)"
  shows "status r \<noteq> ''completed'' \<and> status r \<noteq> ''processing'' \<and> status r \<noteq> ''skip''"
proof -
  have "r \<in> set (sort_key created_at (filter (where_clause m) rows))"
    using assms unfolding select_pending_def by (rule in_set_takeD)
  then have "where_clause m r" by simp
  then have "status r = ''pending'' \<or> status r = ''error''"
    by (auto simp: where_clause_def)
  then show ?thesis by auto
qed

lemma sel_sorted: "sorted (map created_at (select_pending m limit rows))"
proof -
  have "sorted (map created_at (sort_key created_at (filter (where_clause m) rows)))"
    by (rule sorted_sort_key)
  then have "sorted (take limit (map created_at (sort_key created_at (filter (where_clause m) rows))))"
    by (rule sorted_wrt_take)
  then show ?thesis by (simp only: select_pending_def take_map)
qed

lemma sel_oldest:
  assumes "x \<in> set (select_pending m limit rows)"
    and "y \<in># mset (filter (\<lambda>r. status r = ''pending'' \<or> (status r = ''error'' \<and> attempts r < m)) rows)
                    - mset (select_pending m limit rows)"
  shows "created_at x \<le> created_at y"
proof -
  let ?xs = "sort_key created_at (filter (\<lambda>r. status r = ''pending'' \<or> (status r = ''error'' \<and> attempts r < m)) rows)"
  have "mset ?xs - mset (take limit ?xs) = mset (drop limit ?xs)"
    by (rule mset_minus_take)
  then have "y \<in># mset (drop limit ?xs)"
    using assms(2) by (simp only: sel_take mset_sort)
  then have y: "y \<in> set (drop limit ?xs)" by simp
  have x: "x \<in> set (take limit ?xs)" using assms(1) by (simp only: sel_take)
  have "sorted (map created_at ?xs)" by (rule sorted_sort_key)
  then show ?thesis using x y by (rule take_le_drop_sorted)
qed

lemma fetched_fields:
  "list_all2 (\<lambda>r t. t_task_id t = task_id r \<and> t_task_type t = task_type r
                    \<and> t_attempts t = attempts r
                    \<and> t_payload t = (case payload r of SqlNull \<Rightarrow> None | BadJson \<Rightarrow> Some []
                                    | JsonObject d \<Rightarrow> Some d))
     sel (map fetch_dict sel)"
  by (simp add: list_all2_map2 list_all2_same fetch_dict_def deserialize_def)

text \<open>
  C2. When the query reaches the store, \<^verbatim>\<open>get_pending_tasks\<close> returns one dictionary for
  each selected row, in order, holding the row's task id, task type and attempts and its
  payload deserialised; the selection holds only rows that are pending, or in error with
  attempts below the retry limit, never a completed, processing or skipped one; it has
  \<open>limit\<close> rows or all such rows when there are fewer; it is ordered by creation time;
  and every such row left out was created no earlier than every row selected.
\<close>

theorem claim_batch_selection:
  assumes "db_ok c"
  shows "list_all2 (\<lambda>r t. t_task_id t = task_id r \<and> t_task_type t = task_type r
                        \<and> t_attempts t = attempts r
                        \<and> t_payload t = (case payload r of SqlNull \<Rightarrow> None | BadJson \<Rightarrow> Some []
                                        | JsonObject d \<Rightarrow> Some d))
           (select_pending m limit rows) (get_pending_tasks c m limit rows)
       \<and> length (select_pending m limit rows)
           = min limit (length (filter (\<lambda>r. status r = ''pending'' \<or> (status r = ''error'' \<and> attempts r < m)) rows))
       \<and> mset (select_pending m limit rows)
           \<subseteq># mset (filter (\<lambda>r. status r = ''pending'' \<or> (status r = ''error'' \<and> attempts r < m)) rows)
       \<and> (\<forall>r \<in> set (select_pending m limit rows).
             status r \<noteq> ''completed'' \<and> status r \<noteq> ''processing'' \<and> status r \<noteq> ''skip'')
       \<and> sorted (map created_at (select_pending m limit rows))
       \<and> (\<forall>x \<in> set (select_pending m limit rows).
            \<forall>y \<in># mset (filter (\<lambda>r. status r = ''pending'' \<or> (status r = ''error'' \<and> attempts r < m)) rows)
                    - mset (select_pending m limit rows).
              created_at x \<le> created_at y)"
proof (intro conjI ballI)
  have "get_pending_tasks c m limit rows = map fetch_dict (select_pending m limit rows)"
    using assms by (simp add: get_pending_tasks_def)
  then show "list_all2 (\<lambda>r t. t_task_id t = task_id r \<and> t_task_type t = task_type r
                        \<and> t_attempts t = attempts r
                        \<and> t_payload t = (case payload r of SqlNull \<Rightarrow> None | BadJson \<Rightarrow> Some []
                                        | JsonObject d \<Rightarrow> Some d))
           (select_pending m limit rows) (get_pending_tasks c m limit rows)"
    by (simp only: fetched_fields)
  show "length (select_pending m limit rows)
           = min limit (length (filter (\<lambda>r. status r = ''pending'' \<or> (status r = ''error'' \<and> attempts r < m)) rows))"
    by (rule sel_length)
  show "mset (select_pending m limit rows)
           \<subseteq># mset (filter (\<lambda>r. status r = ''pending'' \<or> (status r = ''error'' \<and> attempts r < m)) rows)"
    by (rule sel_mset)
  show "sorted (map created_at (select_pending m limit rows))"
    by (rule sel_sorted)
next
  fix r assume "r \<in> set (select_pending m limit rows)"
  then show "status r \<noteq> ''completed''" by (rule sel_status[THEN conjunct1])
next
  fix r assume "r \<in> set (select_pending m limit rows)"
  then show "status r \<noteq> ''processing''" by (rule sel_status[THEN conjunct2, THEN conjunct1])
next
  fix r assume "r \<in> set (select_pending m limit rows)"
  then show "status r \<noteq> ''skip''" by (rule sel_status[THEN conjunct2, THEN conjunct2])
next
  fix x y
  assume "x \<in> set (select_pending m limit rows)"
    and "y \<in># mset (filter (\<lambda>r. status r = ''pending'' \<or> (status r = ''error'' \<and> attempts r < m)) rows)
                    - mset (select_pending m limit rows)"
  then show "created_at x \<le> created_at y" by (rule sel_oldest)
qed

theorem claim_batch_selection_witness:
  "db_ok (example_call 50)
   \<and> get_pending_tasks (example_call 50) max_task_retries 2 example_table
       = [\<lparr>t_task_id = ''t4'', t_task_type = ''generate_content'',
           t_payload = Some [(''brief_id'', JInt 7), (''prompt'', JStr ''Write about pool tables''),
                             (''target_word_count'', JInt 1500), (''keyword'', JStr ''pool table''),
                             (''callback_url'', JStr ''https://example.org/callback'')],
           t_attempts = 1\<rparr>,
          \<lparr>t_task_id = ''t3'', t_task_type = ''generate_content'',
           t_payload = Some [(''brief_id'', JInt 7), (''prompt'', JStr ''Write about pool tables''),
                             (''target_word_count'', JInt 1500), (''keyword'', JStr ''pool table''),
                             (''callback_url'', JStr ''https://example.org/callback'')],
           t_attempts = 0\<rparr>]
   \<and> map task_id (select_pending max_task_retries 2 example_table) = [''t4'', ''t3'']
   \<and> map status (select_pending max_task_retries 2 example_table) = [''error'', ''pending'']
   \<and> map created_at (select_pending max_task_retries 2 example_table) = [10, 30]"
proof -
  let ?R = "\<lambda>r t. t_task_id t = task_id r \<and> t_task_type t = task_type r
                        \<and> t_attempts t = attempts r
                        \<and> t_payload t = (case payload r of SqlNull \<Rightarrow> None | BadJson \<Rightarrow> Some []
                                        | JsonObject d \<Rightarrow> Some d)"
  have h: "db_ok (example_call 50)" by (simp add: example_call_def)
  have sel: "select_pending max_task_retries 2 example_table
               = [example_row ''t4'' ''error'' 10 1, example_row ''t3'' ''pending'' 30 0]"
    by (simp add: select_pending_def where_clause_def example_table_def example_row_def
          max_task_retries_def)
  from claim_batch_selection [OF h, of max_task_retries 2 example_table]
  have "list_all2 ?R (select_pending max_task_retries 2 example_table)
          (get_pending_tasks (example_call 50) max_task_retries 2 example_table)"
    by (rule conjunct1)
  then obtain a b where res: "get_pending_tasks (example_call 50) max_task_retries 2 example_table = [a, b]"
    and a: "?R (example_row ''t4'' ''error'' 10 1) a"
    and b: "?R (example_row ''t3'' ''pending'' 30 0) b"
    unfolding sel by (auto simp: list_all2_Cons1)
  from a have a': "a = \<lparr>t_task_id = ''t4'', t_task_type = ''generate_content'',
           t_payload = Some [(''brief_id'', JInt 7), (''prompt'', JStr ''Write about pool tables''),
                             (''target_word_count'', JInt 1500), (''keyword'', JStr ''pool table''),
                             (''callback_url'', JStr ''https://example.org/callback'')],
           t_attempts = 1\<rparr>"
    by (cases a) (simp add: example_row_def example_payload_def example_url_def)
  from b have b': "b = \<lparr>t_task_id = ''t3'', t_task_type = ''generate_content'',
           t_payload = Some [(''brief_id'', JInt 7), (''prompt'', JStr ''Write about pool tables''),
                             (''target_word_count'', JInt 1500), (''keyword'', JStr ''pool table''),
                             (''callback_url'', JStr ''https://example.org/callback'')],
           t_attempts = 0\<rparr>"
    by (cases b) (simp add: example_row_def example_payload_def example_url_def)
  have cols: "map task_id (select_pending max_task_retries 2 example_table) = [''t4'', ''t3'']"
    "map status (select_pending max_task_retries 2 example_table) = [''error'', ''pending'']"
    "map created_at (select_pending max_task_retries 2 example_table) = [10, 30]"
    unfolding sel by (simp_all add: example_row_def)
  from h res a' b' cols show ?thesis by simp
qed

section \<open>What a status write does to the table\<close>


lemma status_set_clause: "status (set_clause n st att err r) = st"
  by (simp add: set_clause_def)

lemma last_error_set_clause: "last_error (set_clause n st att err r) = err"
  by (simp add: set_clause_def)

lemma attempts_set_clause_None: "attempts (set_clause n st None err r) = attempts r"
  by (simp add: set_clause_def)

lemma update_written:
  assumes "db_ok c" "r \<in> set (fst (update_task_status c tid st att err rows))" "task_id r = tid"
  shows "status r = st \<and> last_error r = err"
proof -
  let ?f = "\<lambda>r. if task_id r = tid then set_clause (now c) st att err r else r"
  have "r \<in> set (map ?f rows)"
    using assms(1,2) by (simp add: update_task_status_def)
  then obtain r0 where r: "r = ?f r0" unfolding set_map by blast
  show ?thesis
  proof (cases "task_id r0 = tid")
    case True
    with r show ?thesis by (simp add: status_set_clause last_error_set_clause)
  next
    case False
    with r assms(3) show ?thesis by simp
  qed
qed




section \<open>The paths through process\_single\_task\<close>

lemma process_invalid:
  assumes "validate_payload (t_task_id t) (t_payload t) = Inl msg"
  shows "process_single_task e t rows
           = (fst (update_task_status (db_invalid e) (t_task_id t) ''error'' None (Some msg) rows),
              [DbUpdate (t_task_id t) ''error'' None (Some msg)])"
  using assms by (simp add: process_single_task_def)



lemma process_executed:
  assumes "validate_payload (t_task_id t) (t_payload t) = Inr p"
    and "snd (mark_task_processing (db_mark e) (t_task_id t) (t_attempts t) rows)"
    and "init_services e (t_task_id t) = Inr u"
    and "execute_task e t (initial_callback_payload (t_task_id t) p) = (st, stages)"
    and "send_callback e (t_task_id t) p st = ((cp, final_task_status), posts)"
  shows "process_single_task e t rows
           = (fst (update_task_status (db_final e) (t_task_id t) final_task_status None (cp_error_message cp)
                     (fst (mark_task_processing (db_mark e) (t_task_id t) (t_attempts t) rows))),
              [DbUpdate (t_task_id t) ''processing'' (Some (t_attempts t + 1)) None]
              @ stages @ posts
              @ [DbUpdate (t_task_id t) final_task_status None (cp_error_message cp)])"
  using assms
  by (cases "mark_task_processing (db_mark e) (t_task_id t) (t_attempts t) rows")
     (simp add: process_single_task_def)

lemma check_post_result_status:
  "snd (check_post_result e tid a ge cp) = ''completed'' \<or> snd (check_post_result e tid a ge cp) = ''error''"
  by (simp add: check_post_result_def on_exception_def generation_failed_def split: option.splits)

lemma execute_task_status:
  "snd (fst (execute_task e t cp)) = ''completed'' \<or> snd (fst (execute_task e t cp)) = ''error''"
  using check_post_result_status
  by (simp add: execute_task_def on_exception_def Let_def split: outcome.splits prod.splits)


section \<open>The final status write\<close>






lemmas worker_defs = process_single_task_def validate_payload_def missing_keys_def
  required_payload_keys_def mark_task_processing_def update_task_status_def rowcount_def
  set_clause_def init_services_def initial_callback_payload_def execute_task_def
  check_post_result_def on_exception_def generation_failed_def send_callback_def dict_get_def
  on_request_exception_def raises_for_status_def

lemmas example_defs = example_env_def example_task_def example_table_def example_row_def
  example_payload_def example_url_def example_call_def example_post_def



section \<open>The outcome of the stages\<close>

lemma check_post_result_completed:
  "snd (check_post_result e tid a ge cp) = ''completed''
     \<longleftrightarrow> (\<exists>r. a = Some (Some r) \<and> bp_status r = ''success'')"
  by (simp add: check_post_result_def on_exception_def generation_failed_def split: option.splits)

lemma check_post_result_success:
  assumes "a = Some (Some r)" "bp_status r = ''success''"
  shows "cp_status (fst (check_post_result e tid a ge cp)) = ''success''"
    and "cp_error_message (fst (check_post_result e tid a ge cp))
           = (if cu_status r = ''error''
              then Some (''Blog post created, but category update failed: '' @ fmt (cu_error r))
              else None)"
  using assms by (simp_all add: check_post_result_def)

lemma check_post_result_not_success:
  assumes "cp_status cp = ''error''" "snd (check_post_result e tid a ge cp) \<noteq> ''completed''"
  shows "cp_status (fst (check_post_result e tid a ge cp)) = ''error''"
proof (cases a)
  case None
  then show ?thesis by (simp add: check_post_result_def on_exception_def)
next
  case (Some b)
  show ?thesis
  proof (cases b)
    case None
    with Some assms(1) show ?thesis by (simp add: check_post_result_def generation_failed_def)
  next
    case r: (Some r)
    with Some assms(2) have "bp_status r \<noteq> ''success''"
      by (simp add: check_post_result_completed)
    with Some r assms(1) show ?thesis
      by (simp add: check_post_result_def generation_failed_def)
  qed
qed

lemma execute_task_completed:
  "snd (fst (execute_task e t cp)) = ''completed''
     \<longleftrightarrow> t_task_type t = ''generate_content''
          \<and> (\<exists>c ge img r. r_generate e = Returns (Some c, ge) \<and> c \<noteq> [] \<and> r_image e = Returns img
                \<and> r_post e = Returns (Some r) \<and> bp_status r = ''success'')"
proof (cases "t_task_type t = ''generate_content''")
  case False
  then show ?thesis by (simp add: execute_task_def)
next
  case tt: True
  show ?thesis
  proof (cases "r_generate e")
    case (Raises m)
    with tt show ?thesis by (simp add: execute_task_def on_exception_def)
  next
    case (Returns res)
    obtain content ge where res: "res = (content, ge)" by (cases res)
    show ?thesis
    proof (cases "nonempty content")
      case False
      then have "\<forall>c. content = Some c \<longrightarrow> c = []" by (cases content) auto
      with tt Returns res False show ?thesis
        by (auto simp: execute_task_def check_post_result_completed)
    next
      case ne: True
      then obtain c where c: "content = Some c" "c \<noteq> []" by (cases content) auto
      show ?thesis
      proof (cases "r_image e")
        case (Raises m)
        with tt Returns res ne show ?thesis by (simp add: execute_task_def on_exception_def)
      next
        case img: (Returns im)
        show ?thesis
        proof (cases "r_post e")
          case (Raises m)
          with tt Returns res ne img show ?thesis by (simp add: execute_task_def on_exception_def)
        next
          case post: (Returns pr)
          with tt Returns res ne img c show ?thesis
            by (auto simp: execute_task_def check_post_result_completed)
        qed
      qed
    qed
  qed
qed

lemma execute_task_success:
  assumes "t_task_type t = ''generate_content''" "r_generate e = Returns (Some c, ge)" "c \<noteq> []"
    "r_image e = Returns img" "r_post e = Returns (Some r)" "bp_status r = ''success''"
  shows "cp_status (fst (fst (execute_task e t cp))) = ''success''"
    and "cp_error_message (fst (fst (execute_task e t cp)))
           = (if cu_status r = ''error''
              then Some (''Blog post created, but category update failed: '' @ fmt (cu_error r))
              else None)"
    and "snd (execute_task e t cp) = [GenerateContent, GenerateImage, PostToWordPress]"
  using assms by (simp_all add: execute_task_def check_post_result_success)

lemma execute_task_not_success:
  assumes "cp_status cp = ''error''" "snd (fst (execute_task e t cp)) \<noteq> ''completed''"
  shows "cp_status (fst (fst (execute_task e t cp))) = ''error''"
proof (cases "t_task_type t = ''generate_content''")
  case False
  with assms(1) show ?thesis by (simp add: execute_task_def)
next
  case tt: True
  show ?thesis
  proof (cases "r_generate e")
    case (Raises m)
    with tt show ?thesis by (simp add: execute_task_def on_exception_def)
  next
    case (Returns res)
    obtain content ge where res: "res = (content, ge)" by (cases res)
    show ?thesis
    proof (cases "nonempty content")
      case False
      with tt Returns res assms show ?thesis
        by (simp add: execute_task_def check_post_result_not_success)
    next
      case ne: True
      show ?thesis
      proof (cases "r_image e")
        case (Raises m)
        with tt Returns res ne show ?thesis by (simp add: execute_task_def on_exception_def)
      next
        case img: (Returns im)
        show ?thesis
        proof (cases "r_post e")
          case (Raises m)
          with tt Returns res ne img show ?thesis by (simp add: execute_task_def on_exception_def)
        next
          case post: (Returns pr)
          with tt Returns res ne img assms show ?thesis
            by (simp add: execute_task_def check_post_result_not_success)
        qed
      qed
    qed
  qed
qed

lemma execute_task_stages:
  "set (snd (execute_task e t cp)) \<subseteq> {GenerateContent, GenerateImage, PostToWordPress}"
  by (auto simp: execute_task_def Let_def split: outcome.splits prod.splits if_splits)

lemma initial_status: "cp_status (initial_callback_payload tid p) = ''error''"
  by (simp add: initial_callback_payload_def)

lemma execute_task_status_iff:
  assumes "cp_status cp = ''error''"
  shows "snd (fst (execute_task e t cp))
           = (if cp_status (fst (fst (execute_task e t cp))) = ''success'' then ''completed'' else ''error'')"
proof (cases "snd (fst (execute_task e t cp)) = ''completed''")
  case True
  then obtain c ge img r where "t_task_type t = ''generate_content''" "r_generate e = Returns (Some c, ge)"
    "c \<noteq> []" "r_image e = Returns img" "r_post e = Returns (Some r)" "bp_status r = ''success''"
    unfolding execute_task_completed by blast
  then have "cp_status (fst (fst (execute_task e t cp))) = ''success''"
    by (rule execute_task_success(1))
  with True show ?thesis by simp
next
  case False
  with assms have "cp_status (fst (fst (execute_task e t cp))) = ''error''"
    by (rule execute_task_not_success)
  moreover from False have "snd (fst (execute_task e t cp)) = ''error''"
    using execute_task_status[of e t cp] by simp
  ultimately show ?thesis by simp
qed

section \<open>The callback\<close>

lemma send_callback_no_url:
  assumes "\<not> truthy (dict_get p ''callback_url'' (config_callback_url e))"
  shows "send_callback e tid p (cp, fs)
           = ((cp\<lparr>cp_error_message := Some ''Missing callback URL in task payload''\<rparr>, fs), [])"
  using assms by (simp add: send_callback_def)

lemma send_callback_request_exception:
  assumes "truthy (dict_get p ''callback_url'' (config_callback_url e))"
    and "nonempty (wp_api_user e)" "nonempty (wp_api_app_password e)"
    and "r_callback e = RequestException m
         \<or> (\<exists>code. r_callback e = Response code m \<and> 400 \<le> code \<and> code < 600)"
  shows "send_callback e tid p (cp, fs)
           = ((cp\<lparr>cp_error_message :=
                    Some (''Processing status was '' @ [CHR 0x27] @ cp_status cp @ [CHR 0x27]
                          @ '', but callback failed: '' @ m)\<rparr>, ''error''),
              [CallbackPost (dict_get p ''callback_url'' (config_callback_url e))])"
  using assms
  by (auto simp: send_callback_def on_request_exception_def raises_for_status_def)

lemma send_callback_response:
  assumes "truthy (dict_get p ''callback_url'' (config_callback_url e))"
    and "nonempty (wp_api_user e)" "nonempty (wp_api_app_password e)"
    and "r_callback e = Response code m" "code < 400 \<or> 600 \<le> code"
  shows "send_callback e tid p (cp, fs)
           = ((cp, fs), [CallbackPost (dict_get p ''callback_url'' (config_callback_url e))])"
  using assms
  by (auto simp: send_callback_def raises_for_status_def)


lemma init_services_credentials:
  assumes "init_services e tid = Inr u"
  shows "nonempty (wp_api_user e) \<and> nonempty (wp_api_app_password e)"
  using assms by (simp add: init_services_def split: if_splits)


lemma process_executed_split:
  assumes v: "validate_payload (t_task_id t) (t_payload t) = Inr p"
    and m: "snd (mark_task_processing (db_mark e) (t_task_id t) (t_attempts t) rows)"
    and i: "init_services e (t_task_id t) = Inr u"
    and sc: "send_callback e (t_task_id t) p (fst (execute_task e t (initial_callback_payload (t_task_id t) p)))
               = ((cp, final_task_status), posts)"
  shows "process_single_task e t rows
           = (fst (update_task_status (db_final e) (t_task_id t) final_task_status None (cp_error_message cp)
                     (fst (mark_task_processing (db_mark e) (t_task_id t) (t_attempts t) rows))),
              DbUpdate (t_task_id t) ''processing'' (Some (t_attempts t + 1)) None
              # snd (execute_task e t (initial_callback_payload (t_task_id t) p)) @ posts
              @ [DbUpdate (t_task_id t) final_task_status None (cp_error_message cp)])"
proof -
  have ex: "execute_task e t (initial_callback_payload (t_task_id t) p)
              = (fst (execute_task e t (initial_callback_payload (t_task_id t) p)),
                 snd (execute_task e t (initial_callback_payload (t_task_id t) p)))"
    by simp
  from process_executed[OF v m i ex sc] show ?thesis by simp
qed

text \<open>
  C5, as the code has it. When the pipeline's outcome is success and the callback POST
  fails, by an exception of \<^verbatim>\<open>requests.post\<close> (connection error, timeout) or by a
  response with an HTTP error status (400 to 599), the execution's final write has the
  status error and the message that the processing status was 'success' but the
  callback failed; when the store carries out the write, the task's row holds both.
\<close>

theorem callback_failure_overrides_success:
  assumes "validate_payload (t_task_id t) (t_payload t) = Inr p"
    and "snd (mark_task_processing (db_mark e) (t_task_id t) (t_attempts t) rows)"
    and "init_services e (t_task_id t) = Inr u"
    and "cp_status (fst (fst (execute_task e t (initial_callback_payload (t_task_id t) p)))) = ''success''"
    and "truthy (dict_get p ''callback_url'' (config_callback_url e))"
    and "r_callback e = RequestException reason
         \<or> (\<exists>code. r_callback e = Response code reason \<and> 400 \<le> code \<and> code < 600)"
  shows "(\<exists>before. snd (process_single_task e t rows)
            = before @ [CallbackPost (dict_get p ''callback_url'' (config_callback_url e)),
                        DbUpdate (t_task_id t) ''error'' None
                          (Some (''Processing status was '' @ [CHR 0x27] @ ''success'' @ [CHR 0x27]
                                 @ '', but callback failed: '' @ reason))])
       \<and> (db_ok (db_final e) \<longrightarrow>
            (\<forall>r \<in> set (fst (process_single_task e t rows)).
               task_id r = t_task_id t \<longrightarrow>
               status r = ''error''
               \<and> last_error r = Some (''Processing status was '' @ [CHR 0x27] @ ''success'' @ [CHR 0x27]
                                      @ '', but callback failed: '' @ reason)))"
proof -
  let ?tid = "t_task_id t"
  let ?ex = "execute_task e t (initial_callback_payload ?tid p)"
  let ?msg = "Some (''Processing status was '' @ [CHR 0x27] @ ''success'' @ [CHR 0x27]
                    @ '', but callback failed: '' @ reason)"
  let ?url = "dict_get p ''callback_url'' (config_callback_url e)"
  let ?cp = "(fst (fst ?ex))\<lparr>cp_error_message := ?msg\<rparr>"
  from assms(3) have cred: "nonempty (wp_api_user e)" "nonempty (wp_api_app_password e)"
    using init_services_credentials by blast+
  have "send_callback e ?tid p (fst (fst ?ex), snd (fst ?ex))
          = (((fst (fst ?ex))\<lparr>cp_error_message :=
                 Some (''Processing status was '' @ [CHR 0x27] @ cp_status (fst (fst ?ex)) @ [CHR 0x27]
                       @ '', but callback failed: '' @ reason)\<rparr>, ''error''), [CallbackPost ?url])"
    using assms(5) cred assms(6) by (rule send_callback_request_exception)
  then have sc: "send_callback e ?tid p (fst ?ex) = ((?cp, ''error''), [CallbackPost ?url])"
    by (simp add: assms(4))
  have pr: "process_single_task e t rows
           = (fst (update_task_status (db_final e) ?tid ''error'' None ?msg
                     (fst (mark_task_processing (db_mark e) ?tid (t_attempts t) rows))),
              (DbUpdate ?tid ''processing'' (Some (t_attempts t + 1)) None # snd ?ex)
              @ [CallbackPost ?url, DbUpdate ?tid ''error'' None ?msg])"
    using process_executed_split[OF assms(1,2,3) sc] by simp
  have a: "\<exists>before. snd (process_single_task e t rows)
            = before @ [CallbackPost ?url, DbUpdate ?tid ''error'' None ?msg]"
    unfolding pr snd_conv by (rule exI) (rule refl)
  have b: "db_ok (db_final e) \<longrightarrow>
            (\<forall>r \<in> set (fst (process_single_task e t rows)).
               task_id r = ?tid \<longrightarrow> status r = ''error'' \<and> last_error r = ?msg)"
    unfolding pr fst_conv using update_written by blast
  from a b show ?thesis by (rule conjI)
qed

text \<open>
  C3, as the code has it. When the validated payload holds no usable callback URL, no
  callback is sent, the final write carries the message that the callback URL is
  missing, and its status is the one the stages determined: completed when the
  pipeline's outcome is success, error otherwise.
\<close>

theorem missing_callback_url_keeps_status:
  assumes "validate_payload (t_task_id t) (t_payload t) = Inr p"
    and "snd (mark_task_processing (db_mark e) (t_task_id t) (t_attempts t) rows)"
    and "init_services e (t_task_id t) = Inr u"
    and "\<not> truthy (dict_get p ''callback_url'' (config_callback_url e))"
  shows "(\<exists>stages. set stages \<subseteq> {GenerateContent, GenerateImage, PostToWordPress}
          \<and> snd (process_single_task e t rows)
              = DbUpdate (t_task_id t) ''processing'' (Some (t_attempts t + 1)) None # stages
                @ [DbUpdate (t_task_id t)
                     (if cp_status (fst (fst (execute_task e t (initial_callback_payload (t_task_id t) p))))
                           = ''success''
                      then ''completed'' else ''error'')
                     None (Some ''Missing callback URL in task payload'')])
       \<and> (db_ok (db_final e) \<longrightarrow>
            (\<forall>r \<in> set (fst (process_single_task e t rows)).
               task_id r = t_task_id t \<longrightarrow>
               status r = (if cp_status (fst (fst (execute_task e t (initial_callback_payload (t_task_id t) p))))
                               = ''success''
                           then ''completed'' else ''error'')
               \<and> last_error r = Some ''Missing callback URL in task payload''))"
proof -
  let ?tid = "t_task_id t"
  let ?ex = "execute_task e t (initial_callback_payload ?tid p)"
  let ?st = "if cp_status (fst (fst ?ex)) = ''success'' then ''completed'' else ''error''"
  let ?cp = "(fst (fst ?ex))\<lparr>cp_error_message := Some ''Missing callback URL in task payload''\<rparr>"
  have st: "snd (fst ?ex) = ?st"
    using initial_status by (rule execute_task_status_iff)
  have "send_callback e ?tid p (fst (fst ?ex), snd (fst ?ex)) = ((?cp, snd (fst ?ex)), [])"
    using assms(4) by (rule send_callback_no_url)
  then have sc0: "send_callback e ?tid p (fst ?ex) = ((?cp, snd (fst ?ex)), [])"
    by (simp only: prod.collapse)
  have sc: "send_callback e ?tid p (fst ?ex) = ((?cp, ?st), [])"
    by (rule trans[OF sc0]) (simp only: st)
  have pr: "process_single_task e t rows
           = (fst (update_task_status (db_final e) ?tid ?st None (Some ''Missing callback URL in task payload'')
                     (fst (mark_task_processing (db_mark e) ?tid (t_attempts t) rows))),
              DbUpdate ?tid ''processing'' (Some (t_attempts t + 1)) None # snd ?ex
              @ [DbUpdate ?tid ?st None (Some ''Missing callback URL in task payload'')])"
    using process_executed_split[OF assms(1,2,3) sc] by simp
  have a: "\<exists>stages. set stages \<subseteq> {GenerateContent, GenerateImage, PostToWordPress}
          \<and> snd (process_single_task e t rows)
              = DbUpdate ?tid ''processing'' (Some (t_attempts t + 1)) None # stages
                @ [DbUpdate ?tid ?st None (Some ''Missing callback URL in task payload'')]"
    unfolding pr snd_conv using execute_task_stages by blast
  have b: "db_ok (db_final e) \<longrightarrow>
            (\<forall>r \<in> set (fst (process_single_task e t rows)).
               task_id r = ?tid \<longrightarrow> status r = ?st
               \<and> last_error r = Some ''Missing callback URL in task payload'')"
    unfolding pr fst_conv using update_written by blast
  from a b show ?thesis by (rule conjI)
qed


theorem callback_failure_overrides_success_witness:
  "validate_payload (t_task_id (example_task example_url)) (t_payload (example_task example_url))
     = Inr (example_payload example_url)
   \<and> snd (mark_task_processing (db_mark (example_env\<lparr>r_callback := RequestException ''Read timed out''\<rparr>))
            (t_task_id (example_task example_url)) (t_attempts (example_task example_url)) example_table)
   \<and> init_services (example_env\<lparr>r_callback := RequestException ''Read timed out''\<rparr>)
        (t_task_id (example_task example_url)) = Inr ()
   \<and> cp_status (fst (fst (execute_task (example_env\<lparr>r_callback := RequestException ''Read timed out''\<rparr>)
                   (example_task example_url)
                   (initial_callback_payload (t_task_id (example_task example_url))
                      (example_payload example_url))))) = ''success''
   \<and> truthy (dict_get (example_payload example_url) ''callback_url''
               (config_callback_url (example_env\<lparr>r_callback := RequestException ''Read timed out''\<rparr>)))
   \<and> r_callback (example_env\<lparr>r_callback := RequestException ''Read timed out''\<rparr>)
       = RequestException ''Read timed out''
   \<and> db_ok (db_final (example_env\<lparr>r_callback := RequestException ''Read timed out''\<rparr>))
   \<and> snd (process_single_task (example_env\<lparr>r_callback := RequestException ''Read timed out''\<rparr>)
            (example_task example_url) example_table)
       = [DbUpdate ''t3'' ''processing'' (Some 1) None, GenerateContent, GenerateImage, PostToWordPress,
          CallbackPost example_url,
          DbUpdate ''t3'' ''error'' None
            (Some (''Processing status was '' @ [CHR 0x27] @ ''success'' @ [CHR 0x27]
                   @ '', but callback failed: Read timed out''))]
   \<and> (\<exists>r \<in> set (fst (process_single_task (example_env\<lparr>r_callback := RequestException ''Read timed out''\<rparr>)
                        (example_task example_url) example_table)).
         task_id r = ''t3'' \<and> status r = ''error''
         \<and> last_error r = Some (''Processing status was '' @ [CHR 0x27] @ ''success'' @ [CHR 0x27]
                                @ '', but callback failed: Read timed out''))"
proof -
  let ?e = "example_env\<lparr>r_callback := RequestException ''Read timed out''\<rparr>"
  let ?t = "example_task example_url"
  let ?p = "example_payload example_url"
  have h1: "validate_payload (t_task_id ?t) (t_payload ?t) = Inr ?p"
    by (simp add: worker_defs example_defs)
  have h2: "snd (mark_task_processing (db_mark ?e) (t_task_id ?t) (t_attempts ?t) example_table)"
    by (simp add: worker_defs example_defs)
  have h3: "init_services ?e (t_task_id ?t) = Inr ()"
    by (simp add: worker_defs example_defs)
  have h4: "cp_status (fst (fst (execute_task ?e ?t (initial_callback_payload (t_task_id ?t) ?p)))) = ''success''"
    by (simp add: worker_defs example_defs)
  have h5: "truthy (dict_get ?p ''callback_url'' (config_callback_url ?e))"
    by (simp add: worker_defs example_defs)
  have h6': "r_callback ?e = RequestException ''Read timed out''"
    by simp
  then have h6: "r_callback ?e = RequestException ''Read timed out''
         \<or> (\<exists>code. r_callback ?e = Response code ''Read timed out'' \<and> 400 \<le> code \<and> code < 600)"
    by (rule disjI1)
  have ok: "db_ok (db_final ?e)"
    by (simp add: example_defs)
  have url: "dict_get ?p ''callback_url'' (config_callback_url ?e) = example_url"
    by (simp add: worker_defs example_defs)
  have tid: "t_task_id ?t = ''t3''" by (simp add: example_defs)
  have tr: "snd (process_single_task ?e ?t example_table)
       = [DbUpdate ''t3'' ''processing'' (Some 1) None, GenerateContent, GenerateImage, PostToWordPress,
          CallbackPost example_url,
          DbUpdate ''t3'' ''error'' None
            (Some (''Processing status was '' @ [CHR 0x27] @ ''success'' @ [CHR 0x27]
                   @ '', but callback failed: Read timed out''))]"
    by (simp add: worker_defs example_defs)
  have ex: "\<exists>r \<in> set (fst (process_single_task ?e ?t example_table)). task_id r = ''t3''"
    by (simp add: worker_defs example_defs)
  from callback_failure_overrides_success [OF h1 h2 h3 h4 h5 h6]
  have "db_ok (db_final ?e) \<longrightarrow>
            (\<forall>r \<in> set (fst (process_single_task ?e ?t example_table)).
               task_id r = t_task_id ?t \<longrightarrow>
               status r = ''error''
               \<and> last_error r = Some (''Processing status was '' @ [CHR 0x27] @ ''success'' @ [CHR 0x27]
                                      @ '', but callback failed: '' @ ''Read timed out''))"
    by (rule conjunct2)
  with ok have al: "\<forall>r \<in> set (fst (process_single_task ?e ?t example_table)).
               task_id r = t_task_id ?t \<longrightarrow>
               status r = ''error''
               \<and> last_error r = Some (''Processing status was '' @ [CHR 0x27] @ ''success'' @ [CHR 0x27]
                                      @ '', but callback failed: '' @ ''Read timed out'')"
    by (rule rev_mp)
  from ex obtain r where r: "r \<in> set (fst (process_single_task ?e ?t example_table))" "task_id r = ''t3''"
    by (rule bexE)
  from al r(1) have "task_id r = t_task_id ?t \<longrightarrow>
               status r = ''error''
               \<and> last_error r = Some (''Processing status was '' @ [CHR 0x27] @ ''success'' @ [CHR 0x27]
                                      @ '', but callback failed: '' @ ''Read timed out'')"
    by (rule bspec)
  with r(2) tid have "status r = ''error''
               \<and> last_error r = Some (''Processing status was '' @ [CHR 0x27] @ ''success'' @ [CHR 0x27]
                                      @ '', but callback failed: Read timed out'')"
    by simp
  with r have "\<exists>r \<in> set (fst (process_single_task ?e ?t example_table)).
         task_id r = ''t3'' \<and> status r = ''error''
         \<and> last_error r = Some (''Processing status was '' @ [CHR 0x27] @ ''success'' @ [CHR 0x27]
                                @ '', but callback failed: Read timed out'')"
    by (intro bexI[of _ r] conjI) simp_all
  with h1 h2 h3 h4 h5 h6' ok tr show ?thesis by blast
qed

text \<open>
  C5 as stated fails for a response that is neither a success nor an HTTP error: when
  the callback is answered with the status 304, \<^verbatim>\<open>raise_for_status\<close> does not raise, and
  the task whose stages all succeeded is written as completed with no error message.
\<close>

theorem callback_failure_counterexample:
  "snd (process_single_task (example_env\<lparr>r_callback := Response 304 []\<rparr>)
          (example_task example_url) example_table)
     = [DbUpdate ''t3'' ''processing'' (Some 1) None, GenerateContent, GenerateImage, PostToWordPress,
        CallbackPost example_url, DbUpdate ''t3'' ''completed'' None None]
   \<and> map status (fst (process_single_task (example_env\<lparr>r_callback := Response 304 []\<rparr>)
                        (example_task example_url) example_table))
     = [''completed'', ''error'', ''completed'', ''error'', ''skip'', ''processing'', ''pending'']
   \<and> cp_status (fst (fst (execute_task (example_env\<lparr>r_callback := Response 304 []\<rparr>)
                   (example_task example_url)
                   (initial_callback_payload ''t3'' (example_payload example_url))))) = ''success''"
  by (simp add: worker_defs example_defs)

text \<open>
  C3 as stated fails: with an empty callback URL in the payload and every stage
  succeeding, the final write has the status completed.
\<close>

theorem missing_callback_url_counterexample:
  "snd (process_single_task example_env (example_task (JStr [])) example_table)
     = [DbUpdate ''t3'' ''processing'' (Some 1) None, GenerateContent, GenerateImage, PostToWordPress,
        DbUpdate ''t3'' ''completed'' None (Some ''Missing callback URL in task payload'')]
   \<and> map status (fst (process_single_task example_env (example_task (JStr [])) example_table))
     = [''completed'', ''error'', ''completed'', ''error'', ''skip'', ''processing'', ''pending'']
   \<and> map task_id (fst (process_single_task example_env (example_task (JStr [])) example_table))
     = [''t1'', ''t2'', ''t3'', ''t4'', ''t5'', ''t6'', ''t7'']"
  by (simp add: worker_defs example_defs)

theorem missing_callback_url_keeps_status_witness:
  "validate_payload (t_task_id (example_task JNull)) (t_payload (example_task JNull))
     = Inr (example_payload JNull)
   \<and> snd (mark_task_processing (db_mark (example_env\<lparr>r_post := Returns None\<rparr>))
            (t_task_id (example_task JNull)) (t_attempts (example_task JNull)) example_table)
   \<and> init_services (example_env\<lparr>r_post := Returns None\<rparr>) (t_task_id (example_task JNull)) = Inr ()
   \<and> \<not> truthy (dict_get (example_payload JNull) ''callback_url''
                 (config_callback_url (example_env\<lparr>r_post := Returns None\<rparr>)))
   \<and> db_ok (db_final (example_env\<lparr>r_post := Returns None\<rparr>))
   \<and> snd (process_single_task (example_env\<lparr>r_post := Returns None\<rparr>) (example_task JNull) example_table)
       = [DbUpdate ''t3'' ''processing'' (Some 1) None, GenerateContent, GenerateImage, PostToWordPress,
          DbUpdate ''t3'' ''error'' None (Some ''Missing callback URL in task payload'')]
   \<and> (\<exists>r \<in> set (fst (process_single_task (example_env\<lparr>r_post := Returns None\<rparr>)
                        (example_task JNull) example_table)).
         task_id r = ''t3'' \<and> status r = ''error''
         \<and> last_error r = Some ''Missing callback URL in task payload'')"
proof -
  let ?e = "example_env\<lparr>r_post := Returns None\<rparr>"
  let ?t = "example_task JNull"
  let ?p = "example_payload JNull"
  have h1: "validate_payload (t_task_id ?t) (t_payload ?t) = Inr ?p"
    by (simp add: worker_defs example_defs)
  have h2: "snd (mark_task_processing (db_mark ?e) (t_task_id ?t) (t_attempts ?t) example_table)"
    by (simp add: worker_defs example_defs)
  have h3: "init_services ?e (t_task_id ?t) = Inr ()"
    by (simp add: worker_defs example_defs)
  have h4: "\<not> truthy (dict_get ?p ''callback_url'' (config_callback_url ?e))"
    by (simp add: worker_defs example_defs)
  have ok: "db_ok (db_final ?e)"
    by (simp add: example_defs)
  have tid: "t_task_id ?t = ''t3''" by (simp add: example_defs)
  have st: "cp_status (fst (fst (execute_task ?e ?t (initial_callback_payload (t_task_id ?t) ?p)))) = ''error''"
    by (simp add: worker_defs example_defs)
  have tr: "snd (process_single_task ?e ?t example_table)
       = [DbUpdate ''t3'' ''processing'' (Some 1) None, GenerateContent, GenerateImage, PostToWordPress,
          DbUpdate ''t3'' ''error'' None (Some ''Missing callback URL in task payload'')]"
    by (simp add: worker_defs example_defs)
  have ex: "\<exists>r \<in> set (fst (process_single_task ?e ?t example_table)). task_id r = ''t3''"
    by (simp add: worker_defs example_defs)
  from missing_callback_url_keeps_status [OF h1 h2 h3 h4]
  have "db_ok (db_final ?e) \<longrightarrow>
            (\<forall>r \<in> set (fst (process_single_task ?e ?t example_table)).
               task_id r = t_task_id ?t \<longrightarrow>
               status r = (if cp_status (fst (fst (execute_task ?e ?t (initial_callback_payload (t_task_id ?t) ?p))))
                               = ''success''
                           then ''completed'' else ''error'')
               \<and> last_error r = Some ''Missing callback URL in task payload'')"
    by (rule conjunct2)
  with ok have al: "\<forall>r \<in> set (fst (process_single_task ?e ?t example_table)).
               task_id r = t_task_id ?t \<longrightarrow>
               status r = (if cp_status (fst (fst (execute_task ?e ?t (initial_callback_payload (t_task_id ?t) ?p))))
                               = ''success''
                           then ''completed'' else ''error'')
               \<and> last_error r = Some ''Missing callback URL in task payload''"
    by (rule rev_mp)
  from ex obtain r where r: "r \<in> set (fst (process_single_task ?e ?t example_table))" "task_id r = ''t3''"
    by (rule bexE)
  from al r(1) have "task_id r = t_task_id ?t \<longrightarrow>
               status r = (if cp_status (fst (fst (execute_task ?e ?t (initial_callback_payload (t_task_id ?t) ?p))))
                               = ''success''
                           then ''completed'' else ''error'')
               \<and> last_error r = Some ''Missing callback URL in task payload''"
    by (rule bspec)
  with r(2) tid have "status r = (if cp_status (fst (fst (execute_task ?e ?t (initial_callback_payload (t_task_id ?t) ?p))))
                               = ''success''
                           then ''completed'' else ''error'')
               \<and> last_error r = Some ''Missing callback URL in task payload''"
    by simp
  then have "status r = ''error'' \<and> last_error r = Some ''Missing callback URL in task payload''"
    by (simp only: st) simp
  with r have "\<exists>r \<in> set (fst (process_single_task ?e ?t example_table)).
         task_id r = ''t3'' \<and> status r = ''error''
         \<and> last_error r = Some ''Missing callback URL in task payload''"
    by (intro bexI[of _ r] conjI) simp_all
  with h1 h2 h3 h4 ok tr show ?thesis by blast
qed



section \<open>Payload validation\<close>

lemma is_in_prefix: "is_in p (p @ s)"
proof (cases "p @ s")
  case Nil
  then show ?thesis by simp
next
  case (Cons c cs)
  have "take (length p) (p @ s) = p" by simp
  then have "take (length p) (c # cs) = p" by (simp only: Cons)
  then have "is_in p (c # cs)" by simp
  then show ?thesis by (simp only: Cons)
qed

lemma is_in_append_left: "is_in p s \<Longrightarrow> is_in p (a @ s)"
  by (induction a) auto

lemma is_in_append_right: "is_in p s \<Longrightarrow> is_in p (s @ b)"
proof (induction s)
  case Nil
  then show ?case by (cases b) auto
next
  case (Cons c cs)
  show ?case
  proof (cases "take (length p) (c # cs) = p")
    case True
    then have "length (take (length p) (c # cs)) = length p" by simp
    then have "length p \<le> length (c # cs)" by simp
    then have z: "length p - length (c # cs) = 0" by simp
    have "take (length p) ((c # cs) @ b)
            = take (length p) (c # cs) @ take (length p - length (c # cs)) b"
      by (rule take_append)
    also have "\<dots> = p @ take 0 b" by (simp only: True z)
    finally have "take (length p) ((c # cs) @ b) = p" by simp
    then show ?thesis by simp
  next
    case False
    with Cons show ?thesis by simp
  qed
qed

lemma is_in_join: "k \<in> set ks \<Longrightarrow> is_in k (join sep ks)"
proof (induction sep ks rule: join.induct)
  case (1 sep)
  then show ?case by simp
next
  case (2 sep x)
  then have "k = x" by simp
  then show ?case using is_in_prefix[of x "[]"] by simp
next
  case (3 sep x y ys)
  show ?case
  proof (cases "k = x")
    case True
    then show ?thesis using is_in_prefix[of x "sep @ join sep (y # ys)"] by simp
  next
    case False
    with 3 have "is_in k (join sep (y # ys))" by simp
    then have "is_in k ((x @ sep) @ join sep (y # ys))" by (rule is_in_append_left)
    then show ?thesis by simp
  qed
qed

lemma missing_keys_Nil: "missing_keys [] = required_payload_keys"
  by (simp add: missing_keys_def)

lemma validate_payload_fails:
  assumes "k \<in> set required_payload_keys"
    and "map_of (case po of None \<Rightarrow> [] | Some p \<Rightarrow> p) k = None"
  shows "validate_payload tid po
           = Inl (if (case po of None \<Rightarrow> [] | Some p \<Rightarrow> p) = []
                  then ''Invalid or empty payload received.''
                  else ''Task '' @ tid @ '' payload missing required keys: ''
                       @ join '', '' (missing_keys (case po of None \<Rightarrow> [] | Some p \<Rightarrow> p)))"
proof (cases po)
  case None
  then show ?thesis by (simp add: validate_payload_def)
next
  case (Some p)
  with assms have "k \<in> set (missing_keys p)" by (simp add: missing_keys_def)
  then have "missing_keys p \<noteq> []" by auto
  with Some show ?thesis by (simp add: validate_payload_def)
qed

text \<open>
  C7, as the code has it. When a required key is missing from the payload (a NULL
  payload has none), the execution consists of a single call of \<^verbatim>\<open>update_task_status\<close>
  with the status error: no stage runs and no callback is sent. For an absent or empty
  payload the message is the fixed text about an invalid or empty payload; for a
  non-empty payload it lists the missing keys, so it contains the name of each of them.
  When the store carries out the write, the task's row holds that status and message.
\<close>

theorem invalid_payload_terminates:
  fixes t :: task
  defines "pl \<equiv> (case t_payload t of None \<Rightarrow> [] | Some p \<Rightarrow> p)"
  defines "msg \<equiv> (if pl = [] then ''Invalid or empty payload received.''
                   else ''Task '' @ t_task_id t @ '' payload missing required keys: ''
                        @ join '', '' (missing_keys pl))"
  assumes "k \<in> set required_payload_keys" and "map_of pl k = None"
  shows "snd (process_single_task e t rows) = [DbUpdate (t_task_id t) ''error'' None (Some msg)]
       \<and> (pl \<noteq> [] \<longrightarrow> is_in k msg)
       \<and> (db_ok (db_invalid e) \<longrightarrow>
            (\<forall>r \<in> set (fst (process_single_task e t rows)).
               task_id r = t_task_id t \<longrightarrow> status r = ''error'' \<and> last_error r = Some msg))"
proof -
  have v: "validate_payload (t_task_id t) (t_payload t) = Inl msg"
    unfolding msg_def pl_def using assms(3) assms(4)[unfolded pl_def]
    by (rule validate_payload_fails)
  have pr: "process_single_task e t rows
           = (fst (update_task_status (db_invalid e) (t_task_id t) ''error'' None (Some msg) rows),
              [DbUpdate (t_task_id t) ''error'' None (Some msg)])"
    using v by (rule process_invalid)
  have a: "snd (process_single_task e t rows) = [DbUpdate (t_task_id t) ''error'' None (Some msg)]"
    by (simp only: pr snd_conv)
  have b: "pl \<noteq> [] \<longrightarrow> is_in k msg"
  proof
    assume ne: "pl \<noteq> []"
    from assms(3,4) have "k \<in> set (missing_keys pl)" by (simp add: missing_keys_def)
    then have "is_in k (join '', '' (missing_keys pl))" by (rule is_in_join)
    then have "is_in k ((''Task '' @ t_task_id t @ '' payload missing required keys: '')
                        @ join '', '' (missing_keys pl))"
      by (rule is_in_append_left)
    with ne show "is_in k msg" by (simp add: msg_def)
  qed
  have c: "db_ok (db_invalid e) \<longrightarrow>
            (\<forall>r \<in> set (fst (process_single_task e t rows)).
               task_id r = t_task_id t \<longrightarrow> status r = ''error'' \<and> last_error r = Some msg)"
    unfolding pr fst_conv using update_written by blast
  from a b c show ?thesis by blast
qed

text \<open>
  C7 as stated fails for the empty and for the absent payload: all five keys are
  missing, and the stored message names none of them.
\<close>

theorem invalid_payload_counterexample:
  "snd (process_single_task example_env
          \<lparr>t_task_id = ''t3'', t_task_type = ''generate_content'', t_payload = Some [], t_attempts = 0\<rparr>
          example_table)
     = [DbUpdate ''t3'' ''error'' None (Some ''Invalid or empty payload received.'')]
   \<and> snd (process_single_task example_env
          \<lparr>t_task_id = ''t3'', t_task_type = ''generate_content'', t_payload = None, t_attempts = 0\<rparr>
          example_table)
     = [DbUpdate ''t3'' ''error'' None (Some ''Invalid or empty payload received.'')]
   \<and> missing_keys [] = [''brief_id'', ''prompt'', ''target_word_count'', ''keyword'', ''callback_url'']
   \<and> \<not> is_in ''brief_id'' ''Invalid or empty payload received.''
   \<and> \<not> is_in ''prompt'' ''Invalid or empty payload received.''
   \<and> \<not> is_in ''target_word_count'' ''Invalid or empty payload received.''
   \<and> \<not> is_in ''keyword'' ''Invalid or empty payload received.''
   \<and> \<not> is_in ''callback_url'' ''Invalid or empty payload received.''"
  by (simp add: worker_defs example_defs)

theorem invalid_payload_terminates_witness:
  "''keyword'' \<in> set required_payload_keys
   \<and> map_of [(''brief_id'', JInt 7), (''prompt'', JStr ''Write''), (''target_word_count'', JInt 1500),
              (''callback_url'', example_url)] ''keyword'' = None
   \<and> db_ok (db_invalid example_env)
   \<and> snd (process_single_task example_env
            \<lparr>t_task_id = ''t3'', t_task_type = ''generate_content'',
             t_payload = Some [(''brief_id'', JInt 7), (''prompt'', JStr ''Write''),
                               (''target_word_count'', JInt 1500), (''callback_url'', example_url)],
             t_attempts = 0\<rparr> example_table)
       = [DbUpdate ''t3'' ''error'' None (Some ''Task t3 payload missing required keys: keyword'')]
   \<and> is_in ''keyword'' ''Task t3 payload missing required keys: keyword''"
proof -
  let ?p = "[(''brief_id'', JInt 7), (''prompt'', JStr ''Write''), (''target_word_count'', JInt 1500),
             (''callback_url'', example_url)]"
  let ?t = "\<lparr>t_task_id = ''t3'', t_task_type = ''generate_content'', t_payload = Some ?p, t_attempts = 0\<rparr>"
  have h1: "''keyword'' \<in> set required_payload_keys"
    by (simp add: required_payload_keys_def)
  have h2: "map_of ?p ''keyword'' = None" by simp
  have h2': "map_of (case t_payload ?t of None \<Rightarrow> [] | Some p \<Rightarrow> p) ''keyword'' = None" by simp
  have ok: "db_ok (db_invalid example_env)" by (simp add: example_defs)
  have m: "(if (case t_payload ?t of None \<Rightarrow> [] | Some p \<Rightarrow> p) = []
            then ''Invalid or empty payload received.''
            else ''Task '' @ t_task_id ?t @ '' payload missing required keys: ''
                 @ join '', '' (missing_keys (case t_payload ?t of None \<Rightarrow> [] | Some p \<Rightarrow> p)))
           = ''Task t3 payload missing required keys: keyword''"
    by (simp add: missing_keys_def required_payload_keys_def)
  have ne: "(case t_payload ?t of None \<Rightarrow> [] | Some p \<Rightarrow> p) \<noteq> []" by simp
  note inst = invalid_payload_terminates [OF h1 h2', where e = example_env and rows = example_table, unfolded m]
  from inst have tr: "snd (process_single_task example_env ?t example_table)
       = [DbUpdate (t_task_id ?t) ''error'' None (Some ''Task t3 payload missing required keys: keyword'')]"
    by (rule conjunct1)
  from inst ne have "is_in ''keyword'' ''Task t3 payload missing required keys: keyword''"
    by blast
  with h1 h2 ok tr show ?thesis by simp
qed

section \<open>A task whose payload fails validation\<close>

lemma claimable_after_error_write:
  assumes "where_clause m r" "attempts r < m"
  shows "where_clause m (set_clause n ''error'' None err r)"
  using assms by (simp add: where_clause_def set_clause_def)

lemma fetch_dict_after_error_write:
  "fetch_dict (set_clause n st None err r) = fetch_dict r"
  by (simp add: fetch_dict_def set_clause_def)

lemma invalid_step:
  assumes "validate_payload (t_task_id t) (t_payload t) = Inl msg"
  shows "list_all2 (\<lambda>r0 r. task_id r = task_id r0 \<and> created_at r = created_at r0 \<and> attempts r = attempts r0
                     \<and> fetch_dict r = fetch_dict r0 \<and> (task_id r0 \<noteq> t_task_id t \<longrightarrow> r = r0)
                     \<and> (where_clause m r0 \<and> attempts r0 < m \<longrightarrow> where_clause m r))
           rows (fst (process_single_task e t rows))"
proof -
  let ?P = "\<lambda>r0 r. task_id r = task_id r0 \<and> created_at r = created_at r0 \<and> attempts r = attempts r0
                     \<and> fetch_dict r = fetch_dict r0 \<and> (task_id r0 \<noteq> t_task_id t \<longrightarrow> r = r0)
                     \<and> (where_clause m r0 \<and> attempts r0 < m \<longrightarrow> where_clause m r)"
  let ?g = "\<lambda>r. if task_id r = t_task_id t
                then set_clause (now (db_invalid e)) ''error'' None (Some msg) r else r"
  have g: "\<And>r. ?P r (?g r)"
    by (simp add: claimable_after_error_write fetch_dict_after_error_write) (simp add: set_clause_def)
  have pr: "fst (process_single_task e t rows)
              = fst (update_task_status (db_invalid e) (t_task_id t) ''error'' None (Some msg) rows)"
    using process_invalid[OF assms] by simp
  show ?thesis
  proof (cases "db_ok (db_invalid e)")
    case False
    then have "fst (process_single_task e t rows) = rows"
      by (simp add: pr update_task_status_def)
    then show ?thesis by (simp add: list_all2_same)
  next
    case True
    then have "fst (process_single_task e t rows) = map ?g rows"
      by (simp add: pr update_task_status_def)
    then show ?thesis using g by (simp add: list_all2_map2 list_all2_same)
  qed
qed

lemma invalid_steps:
  assumes "validate_payload (t_task_id t) (t_payload t) = Inl msg"
  shows "list_all2 (\<lambda>r0 r. task_id r = task_id r0 \<and> created_at r = created_at r0 \<and> attempts r = attempts r0
                     \<and> fetch_dict r = fetch_dict r0 \<and> (task_id r0 \<noteq> t_task_id t \<longrightarrow> r = r0)
                     \<and> (where_clause m r0 \<and> attempts r0 < m \<longrightarrow> where_clause m r))
           rows (foldl (\<lambda>tbl e. fst (process_single_task e t tbl)) rows es)"
proof (induction es arbitrary: rows)
  case Nil
  show ?case by (simp add: list_all2_same)
next
  case (Cons e es)
  let ?P = "\<lambda>r0 r. task_id r = task_id r0 \<and> created_at r = created_at r0 \<and> attempts r = attempts r0
                     \<and> fetch_dict r = fetch_dict r0 \<and> (task_id r0 \<noteq> t_task_id t \<longrightarrow> r = r0)
                     \<and> (where_clause m r0 \<and> attempts r0 < m \<longrightarrow> where_clause m r)"
  have tr: "\<And>a b c. ?P a b \<Longrightarrow> ?P b c \<Longrightarrow> ?P a c" by simp
  have s1: "list_all2 ?P rows (fst (process_single_task e t rows))"
    using assms by (rule invalid_step)
  have s2: "list_all2 ?P (fst (process_single_task e t rows))
              (foldl (\<lambda>tbl e. fst (process_single_task e t tbl)) (fst (process_single_task e t rows)) es)"
    by (rule Cons.IH)
  have "list_all2 ?P rows
          (foldl (\<lambda>tbl e. fst (process_single_task e t tbl)) (fst (process_single_task e t rows)) es)"
    using tr s1 s2 by (rule list_all2_trans)
  then show ?case by simp
qed

lemma list_all2_map_eq:
  assumes "list_all2 (\<lambda>a b. f b = f a \<and> Q a b) xs ys"
  shows "map f ys = map f xs"
  using assms by (induction xs ys rule: list_all2_induct) simp_all

lemma list_all2_image:
  assumes "list_all2 P xs ys" "x \<in> set xs"
  shows "\<exists>y \<in> set ys. P x y"
  using assms by (induction xs ys rule: list_all2_induct) auto

lemma list_all2_preimage:
  assumes "list_all2 P xs ys" "y \<in> set ys"
  shows "\<exists>x \<in> set xs. P x y"
  using assms by (induction xs ys rule: list_all2_induct) auto

lemma hd_sorted_le:
  assumes "sorted (map f ys)" "x \<in> set ys"
  shows "f (hd ys) \<le> f x"
  using assms by (cases ys) auto

lemma oldest_first:
  assumes ne: "r \<in> set tbl" "where_clause m r"
    and old: "\<And>x. x \<in> set tbl \<Longrightarrow> where_clause m x \<Longrightarrow> created_at x \<le> created_at r
                \<Longrightarrow> fetch_dict x = d"
    and ok: "db_ok c" "0 < limit"
  shows "take 1 (get_pending_tasks c m limit tbl) = [d]"
proof -
  define ys where "ys = sort_key created_at (filter (where_clause m) tbl)"
  from ne have r: "r \<in> set ys" by (simp add: ys_def)
  then have nonempty: "ys \<noteq> []" by auto
  then have hd: "hd ys \<in> set ys" by (rule hd_in_set)
  then have h1: "hd ys \<in> set tbl" "where_clause m (hd ys)" by (simp_all add: ys_def)
  have "sorted (map created_at ys)" unfolding ys_def by (rule sorted_sort_key)
  from this r have "created_at (hd ys) \<le> created_at r" by (rule hd_sorted_le)
  with h1 have d: "fetch_dict (hd ys) = d" by (rule old)
  obtain y ys' where ys: "ys = y # ys'" using nonempty by (cases ys) auto
  obtain k where k: "limit = Suc k" using ok(2) by (cases limit) auto
  have "get_pending_tasks c m limit tbl = map fetch_dict (take limit ys)"
    using ok(1) by (simp add: get_pending_tasks_def select_pending_def ys_def)
  also have "take 1 \<dots> = [fetch_dict (hd ys)]"
    by (simp add: ys k)
  finally show ?thesis using d by simp
qed

lemma fetch_dict_task:
  "t_task_id (fetch_dict r) = task_id r" "t_payload (fetch_dict r) = deserialize (payload r)"
  by (simp_all add: fetch_dict_def)

text \<open>
  C10, as the code has it. A task whose stored payload fails validation gets the status
  error written by a single call that passes no attempt count; the task is not marked
  as processing. However often it is executed, no row's attempt counter changes, and
  if the row was matched by the claim query's WHERE clause with attempts below the
  retry limit, it is still matched afterwards and yields the same dictionary. The
  query returns the oldest matching rows only: when the row's task id is its own and
  every other row the query matches was created later, each later query with a
  positive limit returns the task first, so the worker, which asks for one task,
  executes it again.
\<close>

theorem invalid_payload_stays_claimable:
  assumes "r0 \<in> set rows"
    and "validate_payload (task_id r0) (deserialize (payload r0)) = Inl msg"
  shows "snd (process_single_task e (fetch_dict r0) rows)
           = [DbUpdate (task_id r0) ''error'' None (Some msg)]
       \<and> map attempts (foldl (\<lambda>tbl e. fst (process_single_task e (fetch_dict r0) tbl)) rows es)
           = map attempts rows
       \<and> (where_clause max_task_retries r0 \<and> attempts r0 < max_task_retries \<longrightarrow>
            (\<exists>r \<in> set (foldl (\<lambda>tbl e. fst (process_single_task e (fetch_dict r0) tbl)) rows es).
               task_id r = task_id r0 \<and> attempts r = attempts r0
               \<and> where_clause max_task_retries r \<and> fetch_dict r = fetch_dict r0)
            \<and> (db_ok c \<and> 0 < limit
                \<and> (\<forall>x \<in> set rows. task_id x = task_id r0 \<longrightarrow> x = r0)
                \<and> (\<forall>x \<in> set rows. task_id x \<noteq> task_id r0 \<and> where_clause max_task_retries x
                      \<longrightarrow> created_at r0 < created_at x)
                \<longrightarrow> take 1 (get_pending_tasks c max_task_retries limit
                       (foldl (\<lambda>tbl e. fst (process_single_task e (fetch_dict r0) tbl)) rows es))
                     = [fetch_dict r0]))"
proof -
  let ?M = max_task_retries
  let ?t = "fetch_dict r0"
  let ?N = "foldl (\<lambda>tbl e. fst (process_single_task e ?t tbl)) rows es"
  let ?P = "\<lambda>a b. task_id b = task_id a \<and> created_at b = created_at a \<and> attempts b = attempts a
                     \<and> fetch_dict b = fetch_dict a \<and> (task_id a \<noteq> t_task_id ?t \<longrightarrow> b = a)
                     \<and> (where_clause ?M a \<and> attempts a < ?M \<longrightarrow> where_clause ?M b)"
  have v: "validate_payload (t_task_id ?t) (t_payload ?t) = Inl msg"
    using assms(2) by (simp only: fetch_dict_task)
  have "snd (process_single_task e ?t rows) = [DbUpdate (t_task_id ?t) ''error'' None (Some msg)]"
    using process_invalid[OF v] by simp
  then have a: "snd (process_single_task e ?t rows) = [DbUpdate (task_id r0) ''error'' None (Some msg)]"
    by (simp only: fetch_dict_task)
  have all2: "list_all2 ?P rows ?N" using v by (rule invalid_steps)
  have "list_all2 (\<lambda>a b. attempts b = attempts a
          \<and> (task_id b = task_id a \<and> created_at b = created_at a
               \<and> fetch_dict b = fetch_dict a \<and> (task_id a \<noteq> t_task_id ?t \<longrightarrow> b = a)
               \<and> (where_clause ?M a \<and> attempts a < ?M \<longrightarrow> where_clause ?M b))) rows ?N"
    using all2 by (rule list_all2_mono) blast
  then have b: "map attempts ?N = map attempts rows" by (rule list_all2_map_eq)
  have c: "where_clause ?M r0 \<and> attempts r0 < ?M \<longrightarrow>
            (\<exists>r \<in> set ?N. task_id r = task_id r0 \<and> attempts r = attempts r0
               \<and> where_clause ?M r \<and> fetch_dict r = fetch_dict r0)
            \<and> (db_ok c \<and> 0 < limit
                \<and> (\<forall>x \<in> set rows. task_id x = task_id r0 \<longrightarrow> x = r0)
                \<and> (\<forall>x \<in> set rows. task_id x \<noteq> task_id r0 \<and> where_clause ?M x
                      \<longrightarrow> created_at r0 < created_at x)
                \<longrightarrow> take 1 (get_pending_tasks c ?M limit ?N) = [fetch_dict r0])"
  proof (intro impI conjI)
    assume h: "where_clause ?M r0 \<and> attempts r0 < ?M"
    from all2 assms(1) obtain r where r: "r \<in> set ?N" "?P r0 r"
      by (rule list_all2_image[THEN bexE])
    from r(2) h have f: "task_id r = task_id r0" "attempts r = attempts r0" "where_clause ?M r"
        "fetch_dict r = fetch_dict r0" "created_at r = created_at r0"
      by simp_all
    from r(1) f(1-4) show "\<exists>r \<in> set ?N. task_id r = task_id r0 \<and> attempts r = attempts r0
               \<and> where_clause ?M r \<and> fetch_dict r = fetch_dict r0"
      by blast
    assume k: "db_ok c \<and> 0 < limit
                \<and> (\<forall>x \<in> set rows. task_id x = task_id r0 \<longrightarrow> x = r0)
                \<and> (\<forall>x \<in> set rows. task_id x \<noteq> task_id r0 \<and> where_clause ?M x
                      \<longrightarrow> created_at r0 < created_at x)"
    then have ok: "db_ok c" "0 < limit"
      and uniq: "\<And>x. x \<in> set rows \<Longrightarrow> task_id x = task_id r0 \<Longrightarrow> x = r0"
      and later: "\<And>x. x \<in> set rows \<Longrightarrow> task_id x \<noteq> task_id r0 \<Longrightarrow> where_clause ?M x
                      \<Longrightarrow> created_at r0 < created_at x"
      by blast+
    have old: "fetch_dict y = fetch_dict r0"
      if y: "y \<in> set ?N" "where_clause ?M y" "created_at y \<le> created_at r" for y
    proof -
      from all2 y(1) obtain x where x: "x \<in> set rows" "?P x y"
        by (rule list_all2_preimage[THEN bexE])
      show ?thesis
      proof (cases "task_id x = task_id r0")
        case True
        with x(1) have "x = r0" by (rule uniq)
        with x(2) show ?thesis by simp
      next
        case False
        with x(2) have "y = x" by (simp add: fetch_dict_task)
        with y(2) x(1) False have "created_at r0 < created_at y" by (simp add: later)
        with y(3) f(5) show ?thesis by simp
      qed
    qed
    from r(1) f(3) old ok show "take 1 (get_pending_tasks c ?M limit ?N) = [fetch_dict r0]"
      by (rule oldest_first)
  qed
  from a b c show ?thesis by (intro conjI)
qed


lemma take_one_of_one:
  "take 1 (get_pending_tasks c m 1 tbl) = get_pending_tasks c m 1 tbl"
  by (simp add: get_pending_tasks_def select_pending_def take_map)

text \<open>
  C10 fails on the code as stated: the claim query returns the oldest matching rows
  only. In a table where the error task t4, with one attempt, is older than the task
  t3 whose payload does not parse, t3 is still matched after its execution, but the
  worker's query, which asks for one task, returns t4 and not t3.
\<close>

theorem stays_claimable_counterexample:
  "validate_payload (task_id example_bad_row) (deserialize (payload example_bad_row))
     = Inl ''Invalid or empty payload received.''
   \<and> where_clause max_task_retries example_bad_row
   \<and> snd (process_single_task example_env (fetch_dict example_bad_row) (example_queue 10))
       = [DbUpdate ''t3'' ''error'' None (Some ''Invalid or empty payload received.'')]
   \<and> map task_id (fst (process_single_task example_env (fetch_dict example_bad_row) (example_queue 10)))
       = [''t1'', ''t2'', ''t4'', ''t3'', ''t7'']
   \<and> map status (fst (process_single_task example_env (fetch_dict example_bad_row) (example_queue 10)))
       = [''completed'', ''error'', ''error'', ''error'', ''pending'']
   \<and> map attempts (fst (process_single_task example_env (fetch_dict example_bad_row) (example_queue 10)))
       = [1, 3, 1, 0, 0]
   \<and> map t_task_id (get_pending_tasks (example_call 200) max_task_retries 1
        (fst (process_single_task example_env (fetch_dict example_bad_row) (example_queue 10))))
       = [''t4'']"
  by (simp add: worker_defs example_defs example_bad_row_def example_queue_def fetch_dict_def
      deserialize_def get_pending_tasks_def select_pending_def where_clause_def max_task_retries_def)

theorem invalid_payload_stays_claimable_witness:
  "example_bad_row \<in> set (example_queue 35)
   \<and> validate_payload (task_id example_bad_row) (deserialize (payload example_bad_row))
       = Inl ''Invalid or empty payload received.''
   \<and> where_clause max_task_retries example_bad_row
   \<and> attempts example_bad_row < max_task_retries
   \<and> db_ok (example_call 200)
   \<and> filter (\<lambda>x. task_id x = task_id example_bad_row) (example_queue 35) = [example_bad_row]
   \<and> created_at example_bad_row = 30
   \<and> map created_at (filter (\<lambda>x. task_id x \<noteq> task_id example_bad_row
                                  \<and> where_clause max_task_retries x) (example_queue 35)) = [35, 40]
   \<and> snd (process_single_task example_env (fetch_dict example_bad_row) (example_queue 35))
       = [DbUpdate ''t3'' ''error'' None (Some ''Invalid or empty payload received.'')]
   \<and> map status (foldl (\<lambda>tbl e. fst (process_single_task e (fetch_dict example_bad_row) tbl))
          (example_queue 35) [example_env, example_env])
       = [''completed'', ''error'', ''error'', ''error'', ''pending'']
   \<and> map attempts (foldl (\<lambda>tbl e. fst (process_single_task e (fetch_dict example_bad_row) tbl))
          (example_queue 35) [example_env, example_env])
       = [1, 3, 1, 0, 0]
   \<and> get_pending_tasks (example_call 200) max_task_retries 1
        (foldl (\<lambda>tbl e. fst (process_single_task e (fetch_dict example_bad_row) tbl))
           (example_queue 35) [example_env, example_env])
       = [\<lparr>t_task_id = ''t3'', t_task_type = ''generate_content'', t_payload = Some [],
           t_attempts = 0\<rparr>]"
proof -
  let ?M = max_task_retries
  let ?T = "example_queue 35"
  let ?N = "foldl (\<lambda>tbl e. fst (process_single_task e (fetch_dict example_bad_row) tbl))
              ?T [example_env, example_env]"
  note bad_defs = example_bad_row_def example_queue_def example_row_def
  have r0: "example_bad_row \<in> set ?T" by (simp add: example_queue_def)
  have v: "validate_payload (task_id example_bad_row) (deserialize (payload example_bad_row))
             = Inl ''Invalid or empty payload received.''"
    by (simp add: validate_payload_def deserialize_def bad_defs)
  have w: "where_clause ?M example_bad_row" by (simp add: where_clause_def bad_defs)
  have a: "attempts example_bad_row < ?M" by (simp add: max_task_retries_def bad_defs)
  have ok: "db_ok (example_call 200)" by (simp add: example_call_def)
  have lim: "0 < (1::nat)" by simp
  have u: "filter (\<lambda>x. task_id x = task_id example_bad_row) ?T = [example_bad_row]"
    by (simp add: bad_defs)
  have cr: "created_at example_bad_row = 30" by (simp add: bad_defs)
  have l: "map created_at (filter (\<lambda>x. task_id x \<noteq> task_id example_bad_row \<and> where_clause ?M x) ?T)
             = [35, 40]"
    by (simp add: where_clause_def max_task_retries_def bad_defs)
  have uniq: "\<forall>x \<in> set ?T. task_id x = task_id example_bad_row \<longrightarrow> x = example_bad_row"
  proof (intro ballI impI)
    fix x assume "x \<in> set ?T" "task_id x = task_id example_bad_row"
    then have "x \<in> set (filter (\<lambda>x. task_id x = task_id example_bad_row) ?T)" by simp
    then show "x = example_bad_row" by (simp only: u) simp
  qed
  have later: "\<forall>x \<in> set ?T. task_id x \<noteq> task_id example_bad_row \<and> where_clause ?M x
                 \<longrightarrow> created_at example_bad_row < created_at x"
  proof (intro ballI impI)
    fix x assume "x \<in> set ?T" "task_id x \<noteq> task_id example_bad_row \<and> where_clause ?M x"
    then have "x \<in> set (filter (\<lambda>x. task_id x \<noteq> task_id example_bad_row \<and> where_clause ?M x) ?T)"
      by simp
    then have "created_at x \<in> set (map created_at
                 (filter (\<lambda>x. task_id x \<noteq> task_id example_bad_row \<and> where_clause ?M x) ?T))"
      unfolding set_map by (rule imageI)
    then have "created_at x \<in> set [35, 40]" by (simp only: l)
    then show "created_at example_bad_row < created_at x" by (simp only: cr) auto
  qed
  have fd: "fetch_dict example_bad_row
              = \<lparr>t_task_id = ''t3'', t_task_type = ''generate_content'', t_payload = Some [],
                 t_attempts = 0\<rparr>"
    by (simp add: fetch_dict_def deserialize_def bad_defs)
  have st: "map status ?N = [''completed'', ''error'', ''error'', ''error'', ''pending'']"
    by (simp add: worker_defs example_defs example_bad_row_def example_queue_def fetch_dict_def
        deserialize_def)
  have at': "map attempts ?T = [1, 3, 1, 0, 0]" by (simp add: bad_defs)
  note inst = invalid_payload_stays_claimable [OF r0 v, where e = example_env
      and es = "[example_env, example_env]" and c = "example_call 200" and limit = 1]
  from inst have tr: "snd (process_single_task example_env (fetch_dict example_bad_row) ?T)
       = [DbUpdate (task_id example_bad_row) ''error'' None (Some ''Invalid or empty payload received.'')]"
    by (rule conjunct1)
  have tid: "task_id example_bad_row = ''t3''" by (simp add: bad_defs)
  from inst have at: "map attempts ?N = map attempts ?T"
    by (rule conjunct2[THEN conjunct1])
  from inst have "where_clause ?M example_bad_row \<and> attempts example_bad_row < ?M \<longrightarrow>
            (\<exists>r \<in> set ?N. task_id r = task_id example_bad_row \<and> attempts r = attempts example_bad_row
               \<and> where_clause ?M r \<and> fetch_dict r = fetch_dict example_bad_row)
            \<and> (db_ok (example_call 200) \<and> 0 < (1::nat)
                \<and> (\<forall>x \<in> set ?T. task_id x = task_id example_bad_row \<longrightarrow> x = example_bad_row)
                \<and> (\<forall>x \<in> set ?T. task_id x \<noteq> task_id example_bad_row \<and> where_clause ?M x
                      \<longrightarrow> created_at example_bad_row < created_at x)
                \<longrightarrow> take 1 (get_pending_tasks (example_call 200) ?M 1 ?N) = [fetch_dict example_bad_row])"
    by (rule conjunct2[THEN conjunct2])
  with w a ok lim uniq later
  have "take 1 (get_pending_tasks (example_call 200) ?M 1 ?N) = [fetch_dict example_bad_row]"
    by blast
  then have q: "get_pending_tasks (example_call 200) ?M 1 ?N
       = [\<lparr>t_task_id = ''t3'', t_task_type = ''generate_content'', t_payload = Some [],
           t_attempts = 0\<rparr>]"
    by (simp only: take_one_of_one fd)
  from r0 v w a ok u cr l tr[unfolded tid] st at[unfolded at'] q show ?thesis
    by (intro conjI)
qed

text \<open>
  C1 fails on the code: the UPDATE of \<^verbatim>\<open>mark_task_processing\<close> selects the row by its
  task id alone. On the table of seven tasks, a first claim of the pending task t3
  succeeds, a second claim of it one second later succeeds as well, and so does a claim
  of t6, which is in processing from the start.
\<close>

theorem mark_task_processing_reclaims:
  "snd (mark_task_processing (example_call 100) ''t3'' 0 example_table)
   \<and> map status (fst (mark_task_processing (example_call 100) ''t3'' 0 example_table))
       = [''completed'', ''error'', ''processing'', ''error'', ''skip'', ''processing'', ''pending'']
   \<and> snd (mark_task_processing (example_call 101) ''t3'' 0
            (fst (mark_task_processing (example_call 100) ''t3'' 0 example_table)))
   \<and> map attempts (fst (mark_task_processing (example_call 101) ''t3'' 0
            (fst (mark_task_processing (example_call 100) ''t3'' 0 example_table))))
       = [1, 3, 1, 1, 0, 1, 0]
   \<and> snd (mark_task_processing (example_call 100) ''t6'' 1 example_table)
   \<and> snd (mark_task_processing (example_call 100\<lparr>found_rows := True\<rparr>) ''t6'' 0 example_table)"
  by (simp add: worker_defs example_defs)

text \<open>
  C4 fails on the code in its last part. When the generation returns no text, no image
  is generated, nothing is published and the final status is error; but the
  \<^verbatim>\<open>if\<close> that follows reads \<^verbatim>\<open>post_result\<close>, which was never assigned, and the handler
  of the resulting exception replaces the message: the stored error is that of the
  unbound local variable, not the generation's.
\<close>

theorem no_text_error_message:
  "snd (process_single_task
          (example_env\<lparr>r_generate := Returns (None, Some ''Anthropic client not initialized'')\<rparr>)
          (example_task example_url) example_table)
     = [DbUpdate ''t3'' ''processing'' (Some 1) None, GenerateContent, CallbackPost example_url,
        DbUpdate ''t3'' ''error'' None
          (Some (''Unexpected error processing task t3: local variable '' @ [CHR 0x27]
                 @ ''post_result'' @ [CHR 0x27] @ '' referenced before assignment''))]
   \<and> map last_error (fst (process_single_task
          (example_env\<lparr>r_generate := Returns (None, Some ''Anthropic client not initialized'')\<rparr>)
          (example_task example_url) example_table))
     = [None, None,
        Some (''Unexpected error processing task t3: local variable '' @ [CHR 0x27]
              @ ''post_result'' @ [CHR 0x27] @ '' referenced before assignment''),
        None, None, None, None]
   \<and> \<not> is_in ''Anthropic client not initialized''
          (''Unexpected error processing task t3: local variable '' @ [CHR 0x27]
           @ ''post_result'' @ [CHR 0x27] @ '' referenced before assignment'')"
  by (simp add: worker_defs example_defs)

section \<open>The retry loop of the text generation\<close>



lemma attempt_text_accepted:
  assumes "api g n = ApiText raw"
  shows "(\<exists>p. snd (attempt g T n fc) = Accepted p)
         \<longleftrightarrow> (100 \<le> length (split (strip raw))
              \<and> \<not> is_in ''sorry'' (take 100 (lower (strip raw)))
              \<and> \<not> is_in ''cannot fulfill'' (take 150 (lower (strip raw)))
              \<and> 9 * T \<le> 10 * int (length (split (strip raw))))"
  using assms by (auto simp: attempt_def Let_def)

lemma attempt_text_accepted_value:
  assumes "api g n = ApiText raw" "snd (attempt g T n fc) = Accepted p"
  shows "p = process_claude_link_suggestions g (strip raw)"
  using assms by (simp add: attempt_def Let_def split: if_splits)


lemma loop_accepted:
  assumes "int n \<le> max_retries g" "snd (attempt g T n fc) = Accepted p"
  shows "generate_loop g T n fc = (Some p, None, n + 1)"
proof -
  obtain fc' where "attempt g T n fc = (fc', Accepted p)"
    using assms(2) by (cases "attempt g T n fc") simp
  with assms(1) show ?thesis by (subst generate_loop.simps) simp
qed

lemma loop_failed:
  assumes "int n \<le> max_retries g" "snd (attempt g T n fc) = Failed err"
  shows "generate_loop g T n fc
           = (if int (n + 1) \<le> max_retries g
              then generate_loop g T (n + 1) (fst (attempt g T n fc))
              else ((case fst (attempt g T n fc) of
                       None \<Rightarrow> None
                     | Some text \<Rightarrow> if text = [] then None
                                    else Some (process_claude_link_suggestions g text)),
                    Some err, n + 1))"
proof -
  obtain fc' where "attempt g T n fc = (fc', Failed err)"
    using assms(2) by (cases "attempt g T n fc") simp
  with assms(1) show ?thesis
    by (subst generate_loop.simps) (simp split: option.splits)
qed


lemma loop_calls_lower:
  assumes "int n \<le> max_retries g"
  shows "n + 1 \<le> snd (snd (generate_loop g T n fc))"
  using assms
proof (induction "nat (max_retries g) - n" arbitrary: n fc rule: less_induct)
  case less
  show ?case
  proof (cases "snd (attempt g T n fc)")
    case (Accepted p)
    with less.prems show ?thesis by (simp add: loop_accepted)
  next
    case (Failed err)
    show ?thesis
    proof (cases "int (n + 1) \<le> max_retries g")
      case True
      then have "nat (max_retries g) - (n + 1) < nat (max_retries g) - n" by linarith
      from less.hyps[OF this True]
      have "n + 1 + 1 \<le> snd (snd (generate_loop g T (n + 1) (fst (attempt g T n fc))))" .
      with True less.prems Failed show ?thesis by (simp add: loop_failed)
    next
      case False
      with less.prems Failed show ?thesis by (simp add: loop_failed)
    qed
  qed
qed


lemma loop_accepts_iff:
  assumes "int n \<le> max_retries g"
  shows "(\<exists>p. generate_loop g T n fc = (Some p, None, n + 1))
           \<longleftrightarrow> (\<exists>p. snd (attempt g T n fc) = Accepted p)"
proof
  assume "\<exists>p. snd (attempt g T n fc) = Accepted p"
  with assms show "\<exists>p. generate_loop g T n fc = (Some p, None, n + 1)"
    using loop_accepted by blast
next
  assume r: "\<exists>p. generate_loop g T n fc = (Some p, None, n + 1)"
  show "\<exists>p. snd (attempt g T n fc) = Accepted p"
  proof (cases "snd (attempt g T n fc)")
    case (Accepted p)
    then show ?thesis by blast
  next
    case (Failed err)
    show ?thesis
    proof (cases "int (n + 1) \<le> max_retries g")
      case True
      then have "n + 1 + 1 \<le> snd (snd (generate_loop g T (n + 1) (fst (attempt g T n fc))))"
        by (rule loop_calls_lower)
      moreover have "generate_loop g T n fc = generate_loop g T (n + 1) (fst (attempt g T n fc))"
        using assms Failed True by (simp add: loop_failed)
      ultimately show ?thesis using r by auto
    next
      case False
      with assms Failed r show ?thesis by (simp add: loop_failed)
    qed
  qed
qed




















end
